theory Spec2Isabelle
  imports Main
begin

section \<open>The daily session-expiry job (src/jobs/sessionExpiry.ts)\<close>

text \<open>
  The module exports two entry points: \<open>runSessionExpiryForDate\<close>, a rollover for a
  given calendar date, and \<open>scheduleSessionExpiry\<close>, which arms a timer for the next local
  midnight and runs its own copy of the rollover (\<open>runForDate\<close>) for the previous day each
  time the timer fires. Both copies are embedded separately, as the source has them.
\<close>

subsection \<open>Entities\<close>

text \<open>
  Modelled from the spec: the entity classes \<open>AvaliacaoSCP\<close>, \<open>HistoricoOcupacao\<close> and
  \<open>Leito\<close> and the enums \<open>StatusLeito\<close> and \<open>StatusSessaoAvaliacao\<close> are imported from
  \<open>../entities\<close>, which is not among the sources. The job names the members \<open>PENDENTE\<close>
  and \<open>EXPIRADA\<close>; its header comment names \<open>VAGO\<close>, \<open>MANUT_*\<close> and \<open>LIBERADA\<close>; the spec
  lists vacant, pending, occupied and maintenance variants. Any further member is
  carried by its name.
\<close>

datatype StatusLeito = PENDENTE | VAGO | OCUPADO | MANUT string | StatusLeitoOutro string

datatype StatusSessaoAvaliacao = EXPIRADA | LIBERADA | StatusSessaoOutro string

text \<open>
  Modelled from the spec: the rows as the data store holds them (the entity classes are
  not among the sources). An assessment has an application date, optional references to
  a bed, a unit and an author, the scoring fields and a session status; a unit refers
  to its hospital; a bed has an identifier, a number and a status. References are held
  by key. The fields that the job reads with \<open>?? null\<close> are optional.
\<close>

record Hospital =
  hospital_id :: string

record Unidade =
  unidade_id :: string
  fk_hospital :: "string option"

record Colaborador =
  colaborador_id :: string
  nome :: string

record Leito =
  leito_id :: string
  numero :: "string option"
  status :: "StatusLeito option"

record AvaliacaoRow =
  aval_id :: string
  dataAplicacao :: string
  fk_leito :: "string option"
  fk_unidade :: "string option"
  fk_autor :: "string option"
  scp :: "string option"
  totalPontos :: "int option"
  classificacao :: "string option"
  itens :: "string option"
  statusSessao :: StatusSessaoAvaliacao

text \<open>
  Modelled from the spec: an assessment as \<open>find\<close> returns it, with the relations
  \<open>leito\<close>, \<open>unidade\<close>, \<open>unidade.hospital\<close> and \<open>autor\<close> resolved. A relation that is
  absent is \<open>null\<close>.
\<close>

record UnidadeRel =
  rel_id :: string
  hospital :: "Hospital option"

record AvaliacaoSCP =
  row :: AvaliacaoRow
  leito :: "Leito option"
  unidade :: "UnidadeRel option"
  autor :: "Colaborador option"

text \<open>
  A JavaScript \<open>Date\<close> is its time value, the milliseconds since the epoch;
  \<open>None\<close> is the invalid date (time value \<open>NaN\<close>).
\<close>

type_synonym JSDate = "int option"

text \<open>
  Modelled from the spec: the entity \<open>HistoricoOcupacao\<close>, with the fields that the
  object literal \<open>h\<close> of the job sets. The relation \<open>leito\<close> is held by the key of the
  bed, all other fields are copies taken at rollover time.
\<close>

record HistoricoOcupacao =
  h_leito :: string
  h_unidadeId :: "string option"
  h_hospitalId :: "string option"
  h_leitoNumero :: "string option"
  h_leitoStatus :: "StatusLeito option"
  h_scp :: "string option"
  h_totalPontos :: "int option"
  h_classificacao :: "string option"
  h_itens :: "string option"
  h_autorId :: "string option"
  h_autorNome :: "string option"
  inicio :: JSDate
  fim :: JSDate

subsection \<open>The data source\<close>

text \<open>
  Modelled from the spec: the tables behind the \<open>DataSource\<close> handle, and the four
  operations of the data-access library (typeorm, not part of the repository) that the
  job needs: a read filtered by exact date with the relations resolved, the insert of
  one row, an unconditional bulk update of one field and a bulk update of one field
  scoped by a predicate. The table of snapshots is a list, in insertion order: two
  saves of equal content are two rows.
\<close>

record DataSource =
  avaliacoes :: "AvaliacaoRow list"
  leitos :: "Leito list"
  unidades :: "Unidade list"
  hospitais :: "Hospital list"
  colaboradores :: "Colaborador list"
  historicos :: "HistoricoOcupacao list"

text \<open>
  Every call on the data source inside the \<open>try\<close> block may throw. Which calls of one
  run throw, and with which error, is given by a fault plan: \<open>OpSave k\<close> is the
  \<open>k\<close>-th \<open>save\<close> of the run, counted from 0. A call that throws leaves the tables as
  they were.
\<close>

datatype DbOp = OpGetRepository | OpFind | OpSave nat | OpUpdateLeito | OpUpdateAvaliacao

datatype DbError = DbError string

type_synonym Faults = "DbOp \<Rightarrow> DbError option"

definition noFaults :: Faults where
  "noFaults = (\<lambda>_. None)"

definition ds_getRepositories :: "Faults \<Rightarrow> DbError + unit" where
  "ds_getRepositories faults =
     (case faults OpGetRepository of Some e \<Rightarrow> Inl e | None \<Rightarrow> Inr ())"

definition loadUnidade :: "DataSource \<Rightarrow> string \<Rightarrow> UnidadeRel option" where
  "loadUnidade ds k =
     (case find (\<lambda>u. unidade_id u = k) (unidades ds) of
        None \<Rightarrow> None
      | Some u \<Rightarrow>
          Some \<lparr>rel_id = unidade_id u,
                hospital =
                  (case fk_hospital u of
                     None \<Rightarrow> None
                   | Some hk \<Rightarrow> find (\<lambda>h. hospital_id h = hk) (hospitais ds))\<rparr>)"

definition loadAvaliacao :: "DataSource \<Rightarrow> AvaliacaoRow \<Rightarrow> AvaliacaoSCP" where
  "loadAvaliacao ds r =
     \<lparr>row = r,
      leito = (case fk_leito r of
                 None \<Rightarrow> None
               | Some k \<Rightarrow> find (\<lambda>l. leito_id l = k) (leitos ds)),
      unidade = (case fk_unidade r of None \<Rightarrow> None | Some k \<Rightarrow> loadUnidade ds k),
      autor = (case fk_autor r of
                 None \<Rightarrow> None
               | Some k \<Rightarrow> find (\<lambda>c. colaborador_id c = k) (colaboradores ds))\<rparr>"

text \<open>
  \<open>avalRepo.find({ where: { dataAplicacao }, relations: [...] })\<close>: the rows of the
  date, in table order, each with its relations resolved.
\<close>

definition selectAvaliacoes :: "DataSource \<Rightarrow> string \<Rightarrow> AvaliacaoSCP list" where
  "selectAvaliacoes ds d =
     map (loadAvaliacao ds) (filter (\<lambda>r. dataAplicacao r = d) (avaliacoes ds))"

definition repo_find :: "Faults \<Rightarrow> DataSource \<Rightarrow> string \<Rightarrow> DbError + AvaliacaoSCP list" where
  "repo_find faults ds d =
     (case faults OpFind of
        Some e \<Rightarrow> Inl e
      | None \<Rightarrow> Inr (selectAvaliacoes ds d))"

text \<open>\<open>histRepo.save(histRepo.create(h))\<close>, the \<open>k\<close>-th of the run\<close>

definition repo_save :: "Faults \<Rightarrow> nat \<Rightarrow> HistoricoOcupacao \<Rightarrow> DataSource \<Rightarrow> DbError + DataSource" where
  "repo_save faults k h ds =
     (case faults (OpSave k) of
        Some e \<Rightarrow> Inl e
      | None \<Rightarrow> Inr (ds\<lparr>historicos := historicos ds @ [h]\<rparr>))"

text \<open>\<open>update(Leito).set({ status: PENDENTE }).execute()\<close>: no \<open>where\<close>\<close>

definition update_leito_status :: "Faults \<Rightarrow> StatusLeito \<Rightarrow> DataSource \<Rightarrow> DbError + DataSource" where
  "update_leito_status faults st ds =
     (case faults OpUpdateLeito of
        Some e \<Rightarrow> Inl e
      | None \<Rightarrow> Inr (ds\<lparr>leitos := map (\<lambda>l. l\<lparr>status := Some st\<rparr>) (leitos ds)\<rparr>))"

text \<open>\<open>update(AvaliacaoSCP).set({ statusSessao }).where('"dataAplicacao" = :d').execute()\<close>\<close>

definition update_aval_statusSessao ::
  "Faults \<Rightarrow> StatusSessaoAvaliacao \<Rightarrow> string \<Rightarrow> DataSource \<Rightarrow> DbError + DataSource" where
  "update_aval_statusSessao faults st d ds =
     (case faults OpUpdateAvaliacao of
        Some e \<Rightarrow> Inl e
      | None \<Rightarrow>
          Inr (ds\<lparr>avaliacoes :=
                 map (\<lambda>r. if dataAplicacao r = d then r\<lparr>statusSessao := st\<rparr> else r)
                   (avaliacoes ds)\<rparr>))"

subsection \<open>The date library\<close>

text \<open>
  \<open>DateTime\<close> comes from the luxon library, which is not part of the repository. The
  operations the job calls are parameters of the model; \<open>'dt\<close> is the type of a
  \<open>DateTime\<close> value. \<open>nowSetZone t z\<close> is \<open>DateTime.now().setZone(z)\<close> when the clock
  reads \<open>t\<close>; \<open>toJSDate\<close> is \<open>toUTC().toJSDate()\<close>; \<open>toMillis\<close> is \<open>None\<close> for
  \<open>NaN\<close>; \<open>toISODate\<close> is \<open>None\<close> for \<open>null\<close>.
\<close>

record 'dt Luxon =
  fromISO :: "string \<Rightarrow> string \<Rightarrow> 'dt"
  nowSetZone :: "int \<Rightarrow> string \<Rightarrow> 'dt"
  startOfDay :: "'dt \<Rightarrow> 'dt"
  endOfDay :: "'dt \<Rightarrow> 'dt"
  plusDays :: "'dt \<Rightarrow> int \<Rightarrow> 'dt"
  minusDays :: "'dt \<Rightarrow> int \<Rightarrow> 'dt"
  toMillis :: "'dt \<Rightarrow> int option"
  toJSDate :: "'dt \<Rightarrow> JSDate"
  toISODate :: "'dt \<Rightarrow> string option"

definition ZONE :: string where
  "ZONE = ''America/Sao_Paulo''"

type_synonym Warning = "string \<times> DbError"

subsection \<open>runSessionExpiryForDate\<close>

text \<open>The object literal \<open>h\<close> built for an assessment \<open>a\<close> whose bed is \<open>l\<close>.\<close>

definition manual_h :: "'dt Luxon \<Rightarrow> string \<Rightarrow> AvaliacaoSCP \<Rightarrow> Leito \<Rightarrow> HistoricoOcupacao" where
  "manual_h lx dateYYYYMMDD a l =
     (let startLocal = startOfDay lx (fromISO lx dateYYYYMMDD ZONE);
          endLocal = endOfDay lx startLocal
      in \<lparr>h_leito = leito_id l,
          h_unidadeId = (case unidade a of Some u \<Rightarrow> Some (rel_id u) | None \<Rightarrow> None),
          h_hospitalId =
            (case unidade a of
               Some u \<Rightarrow> (case hospital u of Some hp \<Rightarrow> Some (hospital_id hp) | None \<Rightarrow> None)
             | None \<Rightarrow> None),
          h_leitoNumero = numero l,
          h_leitoStatus = status l,
          h_scp = scp (row a),
          h_totalPontos = totalPontos (row a),
          h_classificacao = classificacao (row a),
          h_itens = itens (row a),
          h_autorId = (case autor a of Some c \<Rightarrow> Some (colaborador_id c) | None \<Rightarrow> None),
          h_autorNome = (case autor a of Some c \<Rightarrow> Some (nome c) | None \<Rightarrow> None),
          inicio = toJSDate lx startLocal,
          fim = toJSDate lx endLocal\<rparr>)"

text \<open>
  The loop over \<open>avals\<close>, with its two accumulators \<open>historicos\<close> and
  \<open>leitoIdsToReset\<close> (the second is filled and never read).
\<close>

fun manual_collect ::
  "'dt Luxon \<Rightarrow> string \<Rightarrow> AvaliacaoSCP list \<Rightarrow> HistoricoOcupacao list \<times> string set \<Rightarrow>
   HistoricoOcupacao list \<times> string set" where
  "manual_collect lx d [] acc = acc"
| "manual_collect lx d (a # avals) (hs, leitoIdsToReset) =
     (case leito a of
        None \<Rightarrow> manual_collect lx d avals (hs, leitoIdsToReset)
      | Some l \<Rightarrow>
          manual_collect lx d avals (hs @ [manual_h lx d a l], insert (leito_id l) leitoIdsToReset))"

text \<open>The loop that saves the snapshots one at a time; it stops at the first save that throws.\<close>

fun manual_saveEach ::
  "Faults \<Rightarrow> nat \<Rightarrow> HistoricoOcupacao list \<Rightarrow> DataSource \<Rightarrow> (DbError + unit) \<times> DataSource" where
  "manual_saveEach faults k [] ds = (Inr (), ds)"
| "manual_saveEach faults k (h # hs) ds =
     (case repo_save faults k h ds of
        Inl e \<Rightarrow> (Inl e, ds)
      | Inr ds' \<Rightarrow> manual_saveEach faults (Suc k) hs ds')"

text \<open>
  The body of the \<open>try\<close> block: the outcome (\<open>Inl\<close> the error thrown) and the tables as
  they are when the block is left.
\<close>

definition manual_try ::
  "'dt Luxon \<Rightarrow> Faults \<Rightarrow> DataSource \<Rightarrow> string \<Rightarrow> (DbError + unit) \<times> DataSource" where
  "manual_try lx faults ds dateYYYYMMDD =
     (case ds_getRepositories faults of
        Inl e \<Rightarrow> (Inl e, ds)
      | Inr _ \<Rightarrow>
     (case repo_find faults ds dateYYYYMMDD of
        Inl e \<Rightarrow> (Inl e, ds)
      | Inr avals \<Rightarrow>
     (let (hs, leitoIdsToReset) = manual_collect lx dateYYYYMMDD avals ([], {})
      in case (if length hs \<noteq> 0 then manual_saveEach faults 0 hs ds else (Inr (), ds)) of
        (Inl e, ds1) \<Rightarrow> (Inl e, ds1)
      | (Inr _, ds1) \<Rightarrow>
     (case update_leito_status faults PENDENTE ds1 of
        Inl e \<Rightarrow> (Inl e, ds1)
      | Inr ds2 \<Rightarrow>
     (case update_aval_statusSessao faults EXPIRADA dateYYYYMMDD ds2 of
        Inl e \<Rightarrow> (Inl e, ds2)
      | Inr ds3 \<Rightarrow> (Inr (), ds3))))))"

text \<open>
  The whole function: the warnings written to the console, the outcome of the promise
  (\<open>Inl e\<close>: rejected with \<open>e\<close>) and the tables afterwards.
\<close>

definition runSessionExpiryForDate ::
  "'dt Luxon \<Rightarrow> Faults \<Rightarrow> DataSource \<Rightarrow> string \<Rightarrow> Warning list \<times> (DbError + unit) \<times> DataSource" where
  "runSessionExpiryForDate lx faults ds dateYYYYMMDD =
     (case manual_try lx faults ds dateYYYYMMDD of
        (Inl e, ds') \<Rightarrow> ([(''Job manual run failed:'', e)], Inl e, ds')
      | (Inr _, ds') \<Rightarrow> ([], Inr (), ds'))"

subsection \<open>scheduleSessionExpiry: the inner runForDate\<close>

text \<open>The scheduler's own copy of the rollover, embedded from its own text.\<close>

definition sched_h :: "'dt Luxon \<Rightarrow> string \<Rightarrow> AvaliacaoSCP \<Rightarrow> Leito \<Rightarrow> HistoricoOcupacao" where
  "sched_h lx dateYYYYMMDD a l =
     (let startLocal = startOfDay lx (fromISO lx dateYYYYMMDD ZONE);
          endLocal = endOfDay lx startLocal
      in \<lparr>h_leito = leito_id l,
          h_unidadeId = (case unidade a of Some u \<Rightarrow> Some (rel_id u) | None \<Rightarrow> None),
          h_hospitalId =
            (case unidade a of
               Some u \<Rightarrow> (case hospital u of Some hp \<Rightarrow> Some (hospital_id hp) | None \<Rightarrow> None)
             | None \<Rightarrow> None),
          h_leitoNumero = numero l,
          h_leitoStatus = status l,
          h_scp = scp (row a),
          h_totalPontos = totalPontos (row a),
          h_classificacao = classificacao (row a),
          h_itens = itens (row a),
          h_autorId = (case autor a of Some c \<Rightarrow> Some (colaborador_id c) | None \<Rightarrow> None),
          h_autorNome = (case autor a of Some c \<Rightarrow> Some (nome c) | None \<Rightarrow> None),
          inicio = toJSDate lx startLocal,
          fim = toJSDate lx endLocal\<rparr>)"

fun sched_collect ::
  "'dt Luxon \<Rightarrow> string \<Rightarrow> AvaliacaoSCP list \<Rightarrow> HistoricoOcupacao list \<times> string set \<Rightarrow>
   HistoricoOcupacao list \<times> string set" where
  "sched_collect lx d [] acc = acc"
| "sched_collect lx d (a # avals) (hs, leitoIdsToReset) =
     (case leito a of
        None \<Rightarrow> sched_collect lx d avals (hs, leitoIdsToReset)
      | Some l \<Rightarrow>
          sched_collect lx d avals (hs @ [sched_h lx d a l], insert (leito_id l) leitoIdsToReset))"

fun sched_saveEach ::
  "Faults \<Rightarrow> nat \<Rightarrow> HistoricoOcupacao list \<Rightarrow> DataSource \<Rightarrow> (DbError + unit) \<times> DataSource" where
  "sched_saveEach faults k [] ds = (Inr (), ds)"
| "sched_saveEach faults k (h # hs) ds =
     (case repo_save faults k h ds of
        Inl e \<Rightarrow> (Inl e, ds)
      | Inr ds' \<Rightarrow> sched_saveEach faults (Suc k) hs ds')"

definition sched_try ::
  "'dt Luxon \<Rightarrow> Faults \<Rightarrow> DataSource \<Rightarrow> string \<Rightarrow> (DbError + unit) \<times> DataSource" where
  "sched_try lx faults ds dateYYYYMMDD =
     (case ds_getRepositories faults of
        Inl e \<Rightarrow> (Inl e, ds)
      | Inr _ \<Rightarrow>
     (case repo_find faults ds dateYYYYMMDD of
        Inl e \<Rightarrow> (Inl e, ds)
      | Inr avals \<Rightarrow>
     (let (hs, leitoIdsToReset) = sched_collect lx dateYYYYMMDD avals ([], {})
      in case (if length hs \<noteq> 0 then sched_saveEach faults 0 hs ds else (Inr (), ds)) of
        (Inl e, ds1) \<Rightarrow> (Inl e, ds1)
      | (Inr _, ds1) \<Rightarrow>
     (case update_leito_status faults PENDENTE ds1 of
        Inl e \<Rightarrow> (Inl e, ds1)
      | Inr ds2 \<Rightarrow>
     (case update_aval_statusSessao faults EXPIRADA dateYYYYMMDD ds2 of
        Inl e \<Rightarrow> (Inl e, ds2)
      | Inr ds3 \<Rightarrow> (Inr (), ds3))))))"

text \<open>The \<open>catch\<close> of \<open>runForDate\<close> writes the warning and returns: the promise is fulfilled.\<close>

definition runForDate ::
  "'dt Luxon \<Rightarrow> Faults \<Rightarrow> DataSource \<Rightarrow> string \<Rightarrow> Warning list \<times> (DbError + unit) \<times> DataSource" where
  "runForDate lx faults ds dateYYYYMMDD =
     (case sched_try lx faults ds dateYYYYMMDD of
        (Inl e, ds') \<Rightarrow> ([(''Job daily-reset falhou:'', e)], Inr (), ds')
      | (Inr _, ds') \<Rightarrow> ([], Inr (), ds'))"

subsection \<open>scheduleSessionExpiry: the timer loop\<close>

text \<open>
  The state of the running scheduler: the tables, the armed one-shot timers (each the
  \<open>Timeout\<close> object that \<open>setTimeout\<close> returned, numbered in the order of creation, with
  the delay it was given), the handle that the returned closure captured, the number of
  timer callbacks that have passed their \<open>await\<close> and have not yet called
  \<open>scheduleNext\<close>, and the console. \<open>ran\<close> records the dates for which \<open>runForDate\<close> was
  called; \<open>died\<close> counts callbacks ended by a rejected \<open>await\<close>.
\<close>

record Scheduler =
  db :: DataSource
  armed :: "(nat \<times> int option) list"
  nextHandle :: nat
  firstHandle :: nat
  awaiting :: nat
  console :: "Warning list"
  ran :: "string list"
  died :: nat

text \<open>\<open>a - b\<close> on JavaScript numbers, \<open>None\<close> being \<open>NaN\<close>\<close>

definition js_minus :: "int option \<Rightarrow> int option \<Rightarrow> int option" where
  "js_minus a b = (case (a, b) of (Some x, Some y) \<Rightarrow> Some (x - y) | _ \<Rightarrow> None)"

text \<open>\<open>scheduleNext\<close>, called when the clock reads \<open>t\<close>: returns the new timer's handle.\<close>

definition scheduleNext :: "'dt Luxon \<Rightarrow> int \<Rightarrow> Scheduler \<Rightarrow> nat \<times> Scheduler" where
  "scheduleNext lx t s =
     (let now = nowSetZone lx t ZONE;
          nextMidnight = startOfDay lx (plusDays lx now 1);
          delay = js_minus (toMillis lx nextMidnight) (toMillis lx now);
          timeoutHandle = nextHandle s
      in (timeoutHandle,
          s\<lparr>armed := armed s @ [(timeoutHandle, delay)], nextHandle := Suc (nextHandle s)\<rparr>))"

text \<open>\<open>scheduleSessionExpiry(ds)\<close>, called when the clock reads \<open>t\<close>.\<close>

definition scheduleSessionExpiry :: "'dt Luxon \<Rightarrow> DataSource \<Rightarrow> int \<Rightarrow> Scheduler" where
  "scheduleSessionExpiry lx ds t =
     (let (h, s) = scheduleNext lx t
                     \<lparr>db = ds, armed = [], nextHandle = 0, firstHandle = 0, awaiting = 0,
                      console = [], ran = [], died = 0\<rparr>
      in s\<lparr>firstHandle := h\<rparr>)"

text \<open>\<open>clearTimeout(h)\<close>: disarms \<open>h\<close> if it is armed, and does nothing otherwise.\<close>

definition clearTimeout :: "nat \<Rightarrow> Scheduler \<Rightarrow> Scheduler" where
  "clearTimeout h s = s\<lparr>armed := filter (\<lambda>tm. fst tm \<noteq> h) (armed s)\<rparr>"

text \<open>The closure that \<open>scheduleSessionExpiry\<close> returns.\<close>

definition cancel :: "Scheduler \<Rightarrow> Scheduler" where
  "cancel s = clearTimeout (firstHandle s) s"

text \<open>
  The timer callback up to and including \<open>await runForDate(dateStr)\<close>, when the clock
  reads \<open>t\<close> and the run meets the faults \<open>faults\<close>. An empty or \<open>null\<close> \<open>dateStr\<close>
  skips the run. A rejected \<open>await\<close> would end the callback before \<open>scheduleNext\<close>.
\<close>

definition timerCallback :: "'dt Luxon \<Rightarrow> int \<Rightarrow> Faults \<Rightarrow> Scheduler \<Rightarrow> Scheduler" where
  "timerCallback lx t faults s =
     (let yesterday = startOfDay lx (minusDays lx (nowSetZone lx t ZONE) 1);
          dateStr = toISODate lx yesterday
      in case dateStr of
           None \<Rightarrow> s\<lparr>awaiting := Suc (awaiting s)\<rparr>
         | Some d \<Rightarrow>
             if d = [] then s\<lparr>awaiting := Suc (awaiting s)\<rparr>
             else
               (case runForDate lx faults (db s) d of
                  (ws, Inr _, ds') \<Rightarrow>
                    s\<lparr>db := ds', console := console s @ ws, ran := ran s @ [d],
                      awaiting := Suc (awaiting s)\<rparr>
                | (ws, Inl e, ds') \<Rightarrow>
                    s\<lparr>db := ds', console := console s @ ws, ran := ran s @ [d],
                      died := Suc (died s)\<rparr>))"

text \<open>
  What can happen to a running scheduler: an armed timer fires, a callback goes on
  after its \<open>await\<close> and calls \<open>scheduleNext\<close>, or the returned closure is called. The
  clock readings and the faults of each run are the environment's. An event that is not
  enabled has no successor state.
\<close>

datatype Event = TimerFires nat int Faults | CallbackResumes int | CancelCalled

fun step :: "'dt Luxon \<Rightarrow> Event \<Rightarrow> Scheduler \<Rightarrow> Scheduler option" where
  "step lx (TimerFires h t faults) s =
     (if h \<in> fst ` set (armed s)
      then Some (timerCallback lx t faults (s\<lparr>armed := filter (\<lambda>tm. fst tm \<noteq> h) (armed s)\<rparr>))
      else None)"
| "step lx (CallbackResumes t) s =
     (if 0 < awaiting s
      then Some (snd (scheduleNext lx t (s\<lparr>awaiting := awaiting s - 1\<rparr>)))
      else None)"
| "step lx CancelCalled s = Some (cancel s)"

fun exec :: "'dt Luxon \<Rightarrow> Event list \<Rightarrow> Scheduler \<Rightarrow> Scheduler option" where
  "exec lx [] s = Some s"
| "exec lx (ev # evs) s = (case step lx ev s of None \<Rightarrow> None | Some s' \<Rightarrow> exec lx evs s')"

fun isCancel :: "Event \<Rightarrow> bool" where
  "isCancel CancelCalled = True"
| "isCancel _ = False"

subsection \<open>An instance of the date library\<close>

text \<open>
  For evaluation on concrete inputs: luxon's operations for a zone whose offset from
  UTC is a constant number of minutes, as \<open>America/Sao_Paulo\<close> has been at \<open>-180\<close>
  since daylight saving time ended there in 2019. A \<open>DateTime\<close> is its epoch
  milliseconds, \<open>None\<close> when invalid. Following luxon's documentation, \<open>startOf('day')\<close>
  is the first millisecond of the local day and \<open>endOf('day')\<close> its last one
  (\<open>23:59:59.999\<close>). Of the ISO 8601 forms only the \<open>yyyy-mm-dd\<close> one that the job
  documents is read; every other text is invalid here. \<open>MS_PER_DAY\<close> is the constant
  of that name in \<open>scheduleSessionExpiry\<close>, which the source declares and does not use.
  The conversions between a civil date and the number of days since 1970-01-01 are the
  usual ones for the proleptic Gregorian calendar.
\<close>

definition MS_PER_DAY :: int where
  "MS_PER_DAY = 24 * 60 * 60 * 1000"

definition daysFromCivil :: "int \<Rightarrow> int \<Rightarrow> int \<Rightarrow> int" where
  "daysFromCivil y m d =
     (let y' = (if m \<le> 2 then y - 1 else y);
          era = y' div 400;
          yoe = y' - era * 400;
          doy = (153 * (if m > 2 then m - 3 else m + 9) + 2) div 5 + d - 1;
          doe = yoe * 365 + yoe div 4 - yoe div 100 + doy
      in era * 146097 + doe - 719468)"

definition civilFromDays :: "int \<Rightarrow> int \<times> int \<times> int" where
  "civilFromDays z0 =
     (let z = z0 + 719468;
          era = z div 146097;
          doe = z - era * 146097;
          yoe = (doe - doe div 1460 + doe div 36524 - doe div 146096) div 365;
          doy = doe - (365 * yoe + yoe div 4 - yoe div 100);
          mp = (5 * doy + 2) div 153;
          d = doy - (153 * mp + 2) div 5 + 1;
          m = (if mp < 10 then mp + 3 else mp - 9);
          y = yoe + era * 400
      in (if m \<le> 2 then y + 1 else y, m, d))"

definition daysInMonth :: "int \<Rightarrow> int \<Rightarrow> int" where
  "daysInMonth y m =
     (if m = 2 then (if y mod 4 = 0 \<and> (y mod 100 \<noteq> 0 \<or> y mod 400 = 0) then 29 else 28)
      else if m = 4 \<or> m = 6 \<or> m = 9 \<or> m = 11 then 30 else 31)"

definition digitVal :: "char \<Rightarrow> int option" where
  "digitVal c =
     map_of [(CHR ''0'', 0), (CHR ''1'', 1), (CHR ''2'', 2), (CHR ''3'', 3), (CHR ''4'', 4),
             (CHR ''5'', 5), (CHR ''6'', 6), (CHR ''7'', 7), (CHR ''8'', 8), (CHR ''9'', 9)] c"

fun digitsVal :: "int \<Rightarrow> string \<Rightarrow> int option" where
  "digitsVal acc [] = Some acc"
| "digitsVal acc (c # cs) =
     (case digitVal c of None \<Rightarrow> None | Some v \<Rightarrow> digitsVal (acc * 10 + v) cs)"

fun parseISODate :: "string \<Rightarrow> (int \<times> int \<times> int) option" where
  "parseISODate [y1, y2, y3, y4, s1, m1, m2, s2, d1, d2] =
     (if s1 = CHR ''-'' \<and> s2 = CHR ''-'' then
        (case (digitsVal 0 [y1, y2, y3, y4], digitsVal 0 [m1, m2], digitsVal 0 [d1, d2]) of
           (Some y, Some m, Some d) \<Rightarrow>
             if 1 \<le> m \<and> m \<le> 12 \<and> 1 \<le> d \<and> d \<le> daysInMonth y m then Some (y, m, d) else None
         | _ \<Rightarrow> None)
      else None)"
| "parseISODate _ = None"

definition digitChar :: "int \<Rightarrow> char" where
  "digitChar v = ''0123456789'' ! nat (v mod 10)"

definition formatISODate :: "int \<times> int \<times> int \<Rightarrow> string" where
  "formatISODate ymd =
     (case ymd of (y, m, d) \<Rightarrow>
        [digitChar (y div 1000), digitChar (y div 100), digitChar (y div 10), digitChar y,
         CHR ''-'', digitChar (m div 10), digitChar m,
         CHR ''-'', digitChar (d div 10), digitChar d])"

definition localDayStart :: "int \<Rightarrow> int \<Rightarrow> int" where
  "localDayStart off ts =
     ((ts + off * 60000) div MS_PER_DAY) * MS_PER_DAY - off * 60000"

definition luxonFixedOffset :: "int \<Rightarrow> (int option) Luxon" where
  "luxonFixedOffset off =
     \<lparr>fromISO = (\<lambda>text zone.
         case parseISODate text of
           None \<Rightarrow> None
         | Some (y, m, d) \<Rightarrow> Some (daysFromCivil y m d * MS_PER_DAY - off * 60000)),
      nowSetZone = (\<lambda>t zone. Some t),
      startOfDay = map_option (localDayStart off),
      endOfDay = map_option (\<lambda>ts. localDayStart off ts + MS_PER_DAY - 1),
      plusDays = (\<lambda>dt n. map_option (\<lambda>ts. ts + n * MS_PER_DAY) dt),
      minusDays = (\<lambda>dt n. map_option (\<lambda>ts. ts - n * MS_PER_DAY) dt),
      toMillis = (\<lambda>dt. dt),
      toJSDate = (\<lambda>dt. dt),
      toISODate = map_option (\<lambda>ts. formatISODate (civilFromDays ((ts + off * 60000) div MS_PER_DAY)))\<rparr>"

definition luxonSaoPaulo :: "(int option) Luxon" where
  "luxonSaoPaulo = luxonFixedOffset (- 180)"

subsection \<open>A small ward\<close>

text \<open>
  The scenario of the spec: on 2024-01-15 one assessment of bed \<open>B1\<close>, which is occupied,
  and one assessment with no bed, unit or author; besides them an assessment of the day
  after, and a second bed under maintenance with no assessment.
\<close>

definition ward :: DataSource where
  "ward =
     \<lparr>avaliacoes =
        [\<lparr>aval_id = ''A1'', dataAplicacao = ''2024-01-15'', fk_leito = Some ''B1'',
          fk_unidade = Some ''U1'', fk_autor = Some ''C1'', scp = Some ''FUGULIN'',
          totalPontos = Some 21, classificacao = Some ''INTERMEDIARIOS'',
          itens = Some ''{}'', statusSessao = StatusSessaoOutro ''ATIVA''\<rparr>,
         \<lparr>aval_id = ''A2'', dataAplicacao = ''2024-01-15'', fk_leito = None,
          fk_unidade = None, fk_autor = None, scp = None,
          totalPontos = None, classificacao = None,
          itens = None, statusSessao = StatusSessaoOutro ''ATIVA''\<rparr>,
         \<lparr>aval_id = ''A3'', dataAplicacao = ''2024-01-16'', fk_leito = Some ''B1'',
          fk_unidade = Some ''U1'', fk_autor = Some ''C1'', scp = Some ''FUGULIN'',
          totalPontos = Some 30, classificacao = Some ''SEMI_INTENSIVOS'',
          itens = Some ''{}'', statusSessao = StatusSessaoOutro ''ATIVA''\<rparr>],
      leitos =
        [\<lparr>leito_id = ''B1'', numero = Some ''101'', status = Some OCUPADO\<rparr>,
         \<lparr>leito_id = ''B2'', numero = Some ''102'', status = Some (MANUT ''LIMPEZA'')\<rparr>],
      unidades = [\<lparr>unidade_id = ''U1'', fk_hospital = Some ''H1''\<rparr>],
      hospitais = [\<lparr>hospital_id = ''H1''\<rparr>],
      colaboradores = [\<lparr>colaborador_id = ''C1'', nome = ''Ana''\<rparr>],
      historicos = []\<rparr>"

text \<open>A bed whose assessment of 2024-01-15 names neither a unit nor an author nor a score.\<close>

definition bareWard :: DataSource where
  "bareWard =
     \<lparr>avaliacoes =
        [\<lparr>aval_id = ''A9'', dataAplicacao = ''2024-01-15'', fk_leito = Some ''B9'',
          fk_unidade = None, fk_autor = None, scp = None,
          totalPontos = None, classificacao = None,
          itens = None, statusSessao = LIBERADA\<rparr>],
      leitos = [\<lparr>leito_id = ''B9'', numero = None, status = Some VAGO\<rparr>],
      unidades = [],
      hospitais = [],
      colaboradores = [],
      historicos = []\<rparr>"

text \<open>The fault plan in which exactly the operation \<open>op\<close> throws.\<close>

definition failAt :: "DbOp \<Rightarrow> Faults" where
  "failAt op = (\<lambda>x. if x = op then Some (DbError ''connection lost'') else None)"

text \<open>
  Notation for the value of the array \<open>historicos\<close> after the loop over \<open>avals\<close>
  (lemma \<open>manual_collect_app\<close>): each assessment contributes the one-element list of
  its \<open>h\<close>, or nothing when it has no bed.
\<close>

abbreviation (input) snapshotsOf ::
  "'dt Luxon \<Rightarrow> string \<Rightarrow> AvaliacaoSCP list \<Rightarrow> HistoricoOcupacao list" where
  "snapshotsOf lx d avals \<equiv>
     concat (map (\<lambda>a. case leito a of None \<Rightarrow> [] | Some l \<Rightarrow> [manual_h lx d a l]) avals)"

section \<open>Properties\<close>

subsection \<open>The two copies of the rollover agree\<close>

lemma sched_h_eq: "sched_h lx d a l = manual_h lx d a l"
  by (simp add: sched_h_def manual_h_def)

lemma sched_collect_eq: "sched_collect lx d avals acc = manual_collect lx d avals acc"
  by (induction lx d avals acc rule: sched_collect.induct)
     (simp_all add: sched_h_eq split: option.splits)

lemma sched_saveEach_eq: "sched_saveEach faults k hs ds = manual_saveEach faults k hs ds"
  by (induction faults k hs ds rule: sched_saveEach.induct) (simp_all split: sum.splits)

lemma sched_try_eq: "sched_try lx faults ds d = manual_try lx faults ds d"
  unfolding sched_try_def manual_try_def sched_collect_eq sched_saveEach_eq by (rule refl)

subsection \<open>The loops\<close>

lemma manual_collect_app:
  "manual_collect lx d avals (hs, ids) =
     (hs @ snapshotsOf lx d avals,
      ids \<union> {leito_id l | a l. a \<in> set avals \<and> leito a = Some l})"
proof (induction avals arbitrary: hs ids)
  case Nil
  then show ?case by simp
next
  case (Cons a avals)
  show ?case
  proof (cases "leito a")
    case None
    then show ?thesis using Cons.IH [of hs ids] by auto
  next
    case (Some l)
    then show ?thesis using Cons.IH [of "hs @ [manual_h lx d a l]" "insert (leito_id l) ids"]
      by auto
  qed
qed

lemma length_snapshotsOf:
  "length (snapshotsOf lx d avals) = length (filter (\<lambda>a. leito a \<noteq> None) avals)"
  by (induction avals) (auto split: option.splits)

lemma saveEach_Inr:
  "manual_saveEach faults k hs ds = (Inr u, ds1) \<Longrightarrow>
     ds1 = ds\<lparr>historicos := historicos ds @ hs\<rparr> \<and> (\<forall>i<length hs. faults (OpSave (k + i)) = None)"
proof (induction hs arbitrary: k ds)
  case Nil
  then show ?case by simp
next
  case (Cons h hs)
  from Cons.prems obtain ds' where
    s: "repo_save faults k h ds = Inr ds'" and r: "manual_saveEach faults (Suc k) hs ds' = (Inr u, ds1)"
    by (auto split: sum.splits)
  from s have f: "faults (OpSave k) = None" and d: "ds' = ds\<lparr>historicos := historicos ds @ [h]\<rparr>"
    by (auto simp: repo_save_def split: option.splits)
  from Cons.IH [OF r] have
    1: "ds1 = ds'\<lparr>historicos := historicos ds' @ hs\<rparr>" and
    2: "\<forall>i<length hs. faults (OpSave (Suc k + i)) = None" by auto
  from 1 d have "ds1 = ds\<lparr>historicos := historicos ds @ h # hs\<rparr>" by simp
  moreover have "\<forall>i<length (h # hs). faults (OpSave (k + i)) = None"
  proof (intro allI impI)
    fix i assume "i < length (h # hs)"
    then show "faults (OpSave (k + i)) = None"
      using f 2 by (cases i) auto
  qed
  ultimately show ?case by simp
qed

lemma saveEach_Inl:
  "manual_saveEach faults k hs ds = (Inl e, ds1) \<Longrightarrow>
     \<exists>n<length hs. faults (OpSave (k + n)) = Some e \<and> (\<forall>i<n. faults (OpSave (k + i)) = None) \<and>
        ds1 = ds\<lparr>historicos := historicos ds @ take n hs\<rparr>"
proof (induction hs arbitrary: k ds)
  case Nil
  then show ?case by simp
next
  case (Cons h hs)
  show ?case
  proof (cases "faults (OpSave k)")
    case (Some e')
    with Cons.prems have "e' = e" "ds1 = ds" by (auto simp: repo_save_def)
    with Some show ?thesis by (intro exI [of _ 0]) simp
  next
    case None
    let ?ds = "ds\<lparr>historicos := historicos ds @ [h]\<rparr>"
    from None Cons.prems have r: "manual_saveEach faults (Suc k) hs ?ds = (Inl e, ds1)"
      by (simp add: repo_save_def)
    from Cons.IH [OF r] obtain n where n: "n < length hs" "faults (OpSave (Suc k + n)) = Some e"
      "\<forall>i<n. faults (OpSave (Suc k + i)) = None"
      "ds1 = ?ds\<lparr>historicos := historicos ?ds @ take n hs\<rparr>"
      by auto
    have "\<forall>i<Suc n. faults (OpSave (k + i)) = None"
    proof (intro allI impI)
      fix i assume "i < Suc n"
      then show "faults (OpSave (k + i)) = None" using None n(3) by (cases i) auto
    qed
    with n show ?thesis by (intro exI [of _ "Suc n"]) simp
  qed
qed

lemma saveEach_total:
  "(\<forall>i<length hs. faults (OpSave (k + i)) = None) \<Longrightarrow>
     manual_saveEach faults k hs ds = (Inr (), ds\<lparr>historicos := historicos ds @ hs\<rparr>)"
proof (induction hs arbitrary: k ds)
  case Nil
  then show ?case by simp
next
  case (Cons h hs)
  from Cons.prems have f: "faults (OpSave k) = None" by force
  have "\<forall>i<length hs. faults (OpSave (Suc k + i)) = None"
  proof (intro allI impI)
    fix i assume "i < length hs"
    then have "Suc i < length (h # hs)" by simp
    with Cons.prems have "faults (OpSave (k + Suc i)) = None" by blast
    then show "faults (OpSave (Suc k + i)) = None" by simp
  qed
  from Cons.IH [OF this] f show ?case by (simp add: repo_save_def)
qed

lemma saveEach_outcome:
  "fst (manual_saveEach faults k hs ds) =
     (case List.map_filter faults (map OpSave [k..<k + length hs]) of
        [] \<Rightarrow> Inr () | e # _ \<Rightarrow> Inl e)"
proof (induction hs arbitrary: k ds)
  case Nil
  then show ?case by (simp add: List.map_filter_simps)
next
  case (Cons h hs)
  have "k < k + length (h # hs)" by simp
  from upt_conv_Cons [OF this]
  have u: "[k..<k + length (h # hs)] = k # [Suc k..<Suc k + length hs]" by simp
  show ?case
  proof (cases "faults (OpSave k)")
    case None
    then show ?thesis using Cons.IH [of "Suc k"] unfolding u
      by (simp add: repo_save_def List.map_filter_simps)
  next
    case (Some e)
    then show ?thesis unfolding u by (simp add: repo_save_def List.map_filter_simps)
  qed
qed

lemma saveEach_if:
  "(if length hs \<noteq> 0 then manual_saveEach faults 0 hs ds else (Inr (), ds))
     = manual_saveEach faults 0 hs ds"
  by (cases hs) simp_all

subsection \<open>The try block, stage by stage\<close>

lemma manual_try_unfold:
  "manual_try lx faults ds d =
     (case ds_getRepositories faults of
        Inl e \<Rightarrow> (Inl e, ds)
      | Inr _ \<Rightarrow>
     (case repo_find faults ds d of
        Inl e \<Rightarrow> (Inl e, ds)
      | Inr avals \<Rightarrow>
     (case manual_saveEach faults 0 (snapshotsOf lx d avals) ds of
        (Inl e, ds1) \<Rightarrow> (Inl e, ds1)
      | (Inr _, ds1) \<Rightarrow>
     (case update_leito_status faults PENDENTE ds1 of
        Inl e \<Rightarrow> (Inl e, ds1)
      | Inr ds2 \<Rightarrow>
     (case update_aval_statusSessao faults EXPIRADA d ds2 of
        Inl e \<Rightarrow> (Inl e, ds2)
      | Inr ds3 \<Rightarrow> (Inr (), ds3))))))"
  unfolding manual_try_def manual_collect_app Let_def prod.case saveEach_if append_Nil
  by (rule refl)

lemma manual_try_cases [case_names getRepository find save updateLeito updateAvaliacao completed]:
  fixes lx :: "'dt Luxon" and ds :: DataSource and d :: string
  defines "hs \<equiv> snapshotsOf lx d (selectAvaliacoes ds d)"
  obtains
    e where "faults OpGetRepository = Some e" "manual_try lx faults ds d = (Inl e, ds)"
  | e where "faults OpGetRepository = None" "faults OpFind = Some e"
      "manual_try lx faults ds d = (Inl e, ds)"
  | e n where "faults OpGetRepository = None" "faults OpFind = None"
      "n < length hs" "faults (OpSave n) = Some e" "\<forall>i<n. faults (OpSave i) = None"
      "manual_try lx faults ds d = (Inl e, ds\<lparr>historicos := historicos ds @ take n hs\<rparr>)"
  | e where "faults OpGetRepository = None" "faults OpFind = None"
      "\<forall>i<length hs. faults (OpSave i) = None" "faults OpUpdateLeito = Some e"
      "manual_try lx faults ds d = (Inl e, ds\<lparr>historicos := historicos ds @ hs\<rparr>)"
  | e where "faults OpGetRepository = None" "faults OpFind = None"
      "\<forall>i<length hs. faults (OpSave i) = None" "faults OpUpdateLeito = None"
      "faults OpUpdateAvaliacao = Some e"
      "manual_try lx faults ds d =
         (Inl e, ds\<lparr>historicos := historicos ds @ hs,
                    leitos := map (\<lambda>l. l\<lparr>status := Some PENDENTE\<rparr>) (leitos ds)\<rparr>)"
  | "faults OpGetRepository = None" "faults OpFind = None"
      "\<forall>i<length hs. faults (OpSave i) = None" "faults OpUpdateLeito = None"
      "faults OpUpdateAvaliacao = None"
      "manual_try lx faults ds d =
         (Inr (), ds\<lparr>historicos := historicos ds @ hs,
                     leitos := map (\<lambda>l. l\<lparr>status := Some PENDENTE\<rparr>) (leitos ds),
                     avaliacoes :=
                       map (\<lambda>r. if dataAplicacao r = d then r\<lparr>statusSessao := EXPIRADA\<rparr> else r)
                         (avaliacoes ds)\<rparr>)"
proof (cases "faults OpGetRepository")
  case (Some e)
  then have "manual_try lx faults ds d = (Inl e, ds)"
    by (simp add: manual_try_unfold ds_getRepositories_def)
  with Some that(1) show ?thesis by blast
next
  case g: None
  show ?thesis
  proof (cases "faults OpFind")
    case (Some e)
    with g have "manual_try lx faults ds d = (Inl e, ds)"
      by (simp add: manual_try_unfold ds_getRepositories_def repo_find_def)
    with g Some that(2) show ?thesis by blast
  next
    case f: None
    obtain r1 ds1 where sv: "manual_saveEach faults 0 hs ds = (r1, ds1)"
      by (cases "manual_saveEach faults 0 hs ds")
    show ?thesis
    proof (cases r1)
      case (Inl e)
      from sv Inl have t: "manual_try lx faults ds d = (Inl e, ds1)"
        using g f by (simp add: manual_try_unfold ds_getRepositories_def repo_find_def hs_def)
      from sv Inl have "manual_saveEach faults 0 hs ds = (Inl e, ds1)" by simp
      from saveEach_Inl [OF this] obtain n where
        "n < length hs" "faults (OpSave n) = Some e" "\<forall>i<n. faults (OpSave i) = None"
        "ds1 = ds\<lparr>historicos := historicos ds @ take n hs\<rparr>" by auto
      with t g f that(3) show ?thesis by blast
    next
      case (Inr u)
      with sv have "manual_saveEach faults 0 hs ds = (Inr u, ds1)" by simp
      from saveEach_Inr [OF this] have
        ds1: "ds1 = ds\<lparr>historicos := historicos ds @ hs\<rparr>" and
        nf: "\<forall>i<length hs. faults (OpSave i) = None" by auto
      show ?thesis
      proof (cases "faults OpUpdateLeito")
        case (Some e)
        with sv Inr g f have "manual_try lx faults ds d = (Inl e, ds1)"
          by (simp add: manual_try_unfold ds_getRepositories_def repo_find_def hs_def
              update_leito_status_def)
        with Some g f nf ds1 that(4) show ?thesis by blast
      next
        case ul: None
        show ?thesis
        proof (cases "faults OpUpdateAvaliacao")
          case (Some e)
          with sv Inr g f ul have "manual_try lx faults ds d =
              (Inl e, ds1\<lparr>leitos := map (\<lambda>l. l\<lparr>status := Some PENDENTE\<rparr>) (leitos ds1)\<rparr>)"
            by (simp add: manual_try_unfold ds_getRepositories_def repo_find_def hs_def
                update_leito_status_def update_aval_statusSessao_def)
          then have "manual_try lx faults ds d =
              (Inl e, ds\<lparr>historicos := historicos ds @ hs,
                    leitos := map (\<lambda>l. l\<lparr>status := Some PENDENTE\<rparr>) (leitos ds)\<rparr>)"
            by (simp add: ds1)
          with Some g f nf ul that(5) show ?thesis by blast
        next
          case None
          with sv Inr g f ul have "manual_try lx faults ds d =
              (Inr (), ds1\<lparr>leitos := map (\<lambda>l. l\<lparr>status := Some PENDENTE\<rparr>) (leitos ds1),
                       avaliacoes :=
                         map (\<lambda>r. if dataAplicacao r = d then r\<lparr>statusSessao := EXPIRADA\<rparr> else r)
                          (avaliacoes ds1)\<rparr>)"
            by (simp add: manual_try_unfold ds_getRepositories_def repo_find_def hs_def
                update_leito_status_def update_aval_statusSessao_def)
          then have "manual_try lx faults ds d =
              (Inr (), ds\<lparr>historicos := historicos ds @ hs,
                     leitos := map (\<lambda>l. l\<lparr>status := Some PENDENTE\<rparr>) (leitos ds),
                     avaliacoes :=
                       map (\<lambda>r. if dataAplicacao r = d then r\<lparr>statusSessao := EXPIRADA\<rparr> else r)
                         (avaliacoes ds)\<rparr>)"
            by (simp add: ds1)
          with None g f nf ul that(6) show ?thesis by blast
        qed
      qed
    qed
  qed
qed


subsection \<open>The two entry points in terms of the try block\<close>

lemma manual_run_eq:
  "runSessionExpiryForDate lx faults ds d =
     (case fst (manual_try lx faults ds d) of
        Inl e \<Rightarrow> ([(''Job manual run failed:'', e)], Inl e, snd (manual_try lx faults ds d))
      | Inr _ \<Rightarrow> ([], Inr (), snd (manual_try lx faults ds d)))"
  by (simp add: runSessionExpiryForDate_def split: prod.splits sum.splits)

lemma sched_run_eq:
  "runForDate lx faults ds d =
     (case fst (manual_try lx faults ds d) of
        Inl e \<Rightarrow> ([(''Job daily-reset falhou:'', e)], Inr (), snd (manual_try lx faults ds d))
      | Inr _ \<Rightarrow> ([], Inr (), snd (manual_try lx faults ds d)))"
  by (simp add: runForDate_def sched_try_eq split: prod.splits sum.splits)

lemma manual_completed_iff:
  "fst (snd (runSessionExpiryForDate lx faults ds d)) = Inr () \<longleftrightarrow>
     (\<exists>ds'. manual_try lx faults ds d = (Inr (), ds'))"
  by (cases "manual_try lx faults ds d") (auto simp: manual_run_eq split: sum.splits)

lemma sched_completed_iff:
  "fst (runForDate lx faults ds d) = [] \<longleftrightarrow>
     (\<exists>ds'. manual_try lx faults ds d = (Inr (), ds'))"
  by (cases "manual_try lx faults ds d") (auto simp: sched_run_eq split: sum.splits)

lemma manual_try_completed:
  assumes "manual_try lx faults ds d = (Inr u, ds')"
  shows "ds' = ds\<lparr>historicos := historicos ds @ snapshotsOf lx d (selectAvaliacoes ds d),
                  leitos := map (\<lambda>l. l\<lparr>status := Some PENDENTE\<rparr>) (leitos ds),
                  avaliacoes :=
                    map (\<lambda>r. if dataAplicacao r = d then r\<lparr>statusSessao := EXPIRADA\<rparr> else r)
                      (avaliacoes ds)\<rparr>"
  using assms by (cases rule: manual_try_cases [where lx = lx and ds = ds and d = d and faults = faults]) simp_all

lemma manual_run_completed:
  assumes "fst (snd (runSessionExpiryForDate lx faults ds d)) = Inr ()"
  shows "snd (snd (runSessionExpiryForDate lx faults ds d)) =
           ds\<lparr>historicos := historicos ds @ snapshotsOf lx d (selectAvaliacoes ds d),
              leitos := map (\<lambda>l. l\<lparr>status := Some PENDENTE\<rparr>) (leitos ds),
              avaliacoes :=
                map (\<lambda>r. if dataAplicacao r = d then r\<lparr>statusSessao := EXPIRADA\<rparr> else r)
                  (avaliacoes ds)\<rparr>"
proof -
  from assms obtain ds' where t: "manual_try lx faults ds d = (Inr (), ds')"
    by (auto simp: manual_completed_iff)
  from manual_try_completed [OF t] t show ?thesis by (simp add: manual_run_eq)
qed

lemma sched_run_completed:
  assumes "fst (runForDate lx faults ds d) = []"
  shows "snd (snd (runForDate lx faults ds d)) =
           ds\<lparr>historicos := historicos ds @ snapshotsOf lx d (selectAvaliacoes ds d),
              leitos := map (\<lambda>l. l\<lparr>status := Some PENDENTE\<rparr>) (leitos ds),
              avaliacoes :=
                map (\<lambda>r. if dataAplicacao r = d then r\<lparr>statusSessao := EXPIRADA\<rparr> else r)
                  (avaliacoes ds)\<rparr>"
proof -
  from assms obtain ds' where t: "manual_try lx faults ds d = (Inr (), ds')"
    by (auto simp: sched_completed_iff)
  from manual_try_completed [OF t] t show ?thesis by (simp add: sched_run_eq)
qed

lemma manual_try_noFaults:
  "\<exists>ds'. manual_try lx noFaults ds d = (Inr (), ds')"
  by (cases rule: manual_try_cases [where lx = lx and ds = ds and d = d and faults = noFaults]) (simp_all add: noFaults_def)


lemma manual_run_ds: "snd (snd (runSessionExpiryForDate lx faults ds d)) = snd (manual_try lx faults ds d)"
  by (simp add: manual_run_eq split: sum.splits)

lemma sched_run_ds: "snd (snd (runForDate lx faults ds d)) = snd (manual_try lx faults ds d)"
  by (simp add: sched_run_eq split: sum.splits)

lemma sched_run_outcome: "fst (snd (runForDate lx faults ds d)) = Inr ()"
  by (simp add: sched_run_eq split: sum.splits)


subsection \<open>Outcome of a run and the timer callback\<close>


lemma manual_try_outcome:
  "fst (manual_try lx faults ds d) =
     (case List.map_filter faults
             ([OpGetRepository, OpFind] @
              map OpSave [0..<length (filter (\<lambda>a. leito a \<noteq> None) (selectAvaliacoes ds d))] @
              [OpUpdateLeito, OpUpdateAvaliacao]) of
        [] \<Rightarrow> Inr ()
      | e # _ \<Rightarrow> Inl e)"
proof -
  let ?hs = "snapshotsOf lx d (selectAvaliacoes ds d)"
  let ?saves = "List.map_filter faults (map OpSave [0..<length ?hs])"
  have len: "length (filter (\<lambda>a. leito a \<noteq> None) (selectAvaliacoes ds d)) = length ?hs"
    by (simp only: length_snapshotsOf)
  have mf: "\<And>xs ys. List.map_filter faults (xs @ ys) = List.map_filter faults xs @ List.map_filter faults ys"
    by (simp add: List.map_filter_def)
  have sv: "fst (manual_saveEach faults 0 ?hs ds) = (case ?saves of [] \<Rightarrow> Inr () | e # _ \<Rightarrow> Inl e)"
    using saveEach_outcome [of faults 0 ?hs ds] by simp
  have none: "(\<forall>i<length ?hs. faults (OpSave i) = None) \<Longrightarrow> ?saves = []"
    by (auto simp: List.map_filter_def filter_empty_conv)
  have "fst (manual_try lx faults ds d) =
     (case List.map_filter faults
             ([OpGetRepository, OpFind] @ map OpSave [0..<length ?hs] @
              [OpUpdateLeito, OpUpdateAvaliacao]) of
        [] \<Rightarrow> Inr ()
      | e # _ \<Rightarrow> Inl e)"
  proof (cases rule: manual_try_cases [where lx = lx and ds = ds and d = d and faults = faults])
    case (getRepository e)
    then show ?thesis by simp
  next
    case (find e)
    then show ?thesis by simp
  next
    case (save e n)
    from save(4,5,3) have "manual_saveEach faults 0 ?hs ds \<noteq> (Inr (), ds\<lparr>historicos := historicos ds @ ?hs\<rparr>)"
      using saveEach_Inr [of faults 0 ?hs ds "()" "ds\<lparr>historicos := historicos ds @ ?hs\<rparr>"] by auto
    obtain r1 ds1 where r: "manual_saveEach faults 0 ?hs ds = (r1, ds1)"
      by (cases "manual_saveEach faults 0 ?hs ds")
    have "\<exists>e'. r1 = Inl e'"
    proof (cases r1)
      case (Inr u)
      with r saveEach_Inr [of faults 0 ?hs ds u ds1] save(3,4) show ?thesis by auto
    qed simp
    then obtain e' where e': "r1 = Inl e'" by blast
    with r have t: "manual_try lx faults ds d = (Inl e', ds1)"
      using save(1,2) by (simp add: manual_try_unfold ds_getRepositories_def repo_find_def)
    with save(6) have "e' = e" by simp
    with r e' sv have "(case ?saves of [] \<Rightarrow> Inr () | e # _ \<Rightarrow> Inl e) = Inl e" by simp
    then obtain rest where "?saves = e # rest" by (cases ?saves) auto
    with save(1,2,6) show ?thesis by (simp add: mf)
  next
    case (updateLeito e)
    with none show ?thesis by (simp add: mf)
  next
    case (updateAvaliacao e)
    with none show ?thesis by (simp add: mf)
  next
    case completed
    with none show ?thesis by (simp add: mf)
  qed
  then show ?thesis unfolding len .
qed

lemma timerCallback_awaiting:
  "awaiting (timerCallback lx t faults s) = Suc (awaiting s) \<and>
   died (timerCallback lx t faults s) = died s \<and>
   armed (timerCallback lx t faults s) = armed s \<and>
   nextHandle (timerCallback lx t faults s) = nextHandle s \<and>
   firstHandle (timerCallback lx t faults s) = firstHandle s"
proof (cases "toISODate lx (startOfDay lx (minusDays lx (nowSetZone lx t ZONE) 1))")
  case None
  then show ?thesis by (simp add: timerCallback_def Let_def)
next
  case (Some d)
  obtain ws ds' where "runForDate lx faults (db s) d = (ws, Inr (), ds')"
    by (cases "fst (manual_try lx faults (db s) d)") (simp_all add: sched_run_eq)
  with Some show ?thesis by (simp add: timerCallback_def Let_def)
qed

subsection \<open>A second run on the tables the first one left\<close>


lemma find_map_status:
  "find (\<lambda>l. leito_id l = k) (map (\<lambda>l. l\<lparr>status := st\<rparr>) ls) =
     map_option (\<lambda>l. l\<lparr>status := st\<rparr>) (find (\<lambda>l. leito_id l = k) ls)"
  by (induction ls) simp_all

lemma loadUnidade_cong:
  assumes "unidades ds' = unidades ds" and "hospitais ds' = hospitais ds"
  shows "loadUnidade ds' k = loadUnidade ds k"
  unfolding loadUnidade_def assms by (rule refl)

lemma loadAvaliacao_after:
  assumes "leitos ds' = map (\<lambda>l. l\<lparr>status := Some PENDENTE\<rparr>) (leitos ds)"
    and "unidades ds' = unidades ds" "hospitais ds' = hospitais ds"
    and "colaboradores ds' = colaboradores ds"
  shows "loadAvaliacao ds' (r\<lparr>statusSessao := st\<rparr>) =
           (loadAvaliacao ds r)\<lparr>row := r\<lparr>statusSessao := st\<rparr>,
              leito := map_option (\<lambda>l. l\<lparr>status := Some PENDENTE\<rparr>) (leito (loadAvaliacao ds r))\<rparr>"
  using assms
  by (simp add: loadAvaliacao_def find_map_status loadUnidade_cong [OF assms(2,3)]
      split: option.splits)

lemma manual_h_after:
  "manual_h lx d (a\<lparr>row := (row a)\<lparr>statusSessao := st\<rparr>, leito := x\<rparr>) (l\<lparr>status := Some PENDENTE\<rparr>) =
     (manual_h lx d a l)\<lparr>h_leitoStatus := Some PENDENTE\<rparr>"
  by (simp add: manual_h_def Let_def)

lemma snapshots_after_rows:
  assumes "leitos ds' = map (\<lambda>l. l\<lparr>status := Some PENDENTE\<rparr>) (leitos ds)"
    and "unidades ds' = unidades ds" "hospitais ds' = hospitais ds"
    and "colaboradores ds' = colaboradores ds"
  shows "snapshotsOf lx d (map (loadAvaliacao ds')
            (filter (\<lambda>r. dataAplicacao r = d)
               (map (\<lambda>r. if dataAplicacao r = d then r\<lparr>statusSessao := EXPIRADA\<rparr> else r) rows))) =
         map (\<lambda>h. h\<lparr>h_leitoStatus := Some PENDENTE\<rparr>)
           (snapshotsOf lx d (map (loadAvaliacao ds) (filter (\<lambda>r. dataAplicacao r = d) rows)))"
proof (induction rows)
  case Nil
  then show ?case by simp
next
  case (Cons r rows)
  show ?case
  proof (cases "dataAplicacao r = d")
    case False
    with Cons show ?thesis by simp
  next
    case True
    have la: "loadAvaliacao ds' (r\<lparr>statusSessao := EXPIRADA\<rparr>) =
           (loadAvaliacao ds r)\<lparr>row := r\<lparr>statusSessao := EXPIRADA\<rparr>,
              leito := map_option (\<lambda>l. l\<lparr>status := Some PENDENTE\<rparr>) (leito (loadAvaliacao ds r))\<rparr>"
      by (rule loadAvaliacao_after [OF assms])
    have rw: "row (loadAvaliacao ds r) = r" by (simp add: loadAvaliacao_def)
    have one: "(case leito (loadAvaliacao ds' (r\<lparr>statusSessao := EXPIRADA\<rparr>)) of None \<Rightarrow> []
               | Some l \<Rightarrow> [manual_h lx d (loadAvaliacao ds' (r\<lparr>statusSessao := EXPIRADA\<rparr>)) l]) =
          map (\<lambda>h. h\<lparr>h_leitoStatus := Some PENDENTE\<rparr>)
            (case leito (loadAvaliacao ds r) of None \<Rightarrow> []
               | Some l \<Rightarrow> [manual_h lx d (loadAvaliacao ds r) l])"
    proof (cases "leito (loadAvaliacao ds r)")
      case None
      then show ?thesis by (simp add: la)
    next
      case (Some l)
      have "manual_h lx d ((loadAvaliacao ds r)\<lparr>row := (row (loadAvaliacao ds r))\<lparr>statusSessao := EXPIRADA\<rparr>,
                leito := Some (l\<lparr>status := Some PENDENTE\<rparr>)\<rparr>) (l\<lparr>status := Some PENDENTE\<rparr>) =
            (manual_h lx d (loadAvaliacao ds r) l)\<lparr>h_leitoStatus := Some PENDENTE\<rparr>"
        by (rule manual_h_after)
      with Some show ?thesis by (simp add: la rw)
    qed
    from True Cons one show ?thesis by simp
  qed
qed

lemma snapshots_after_run:
  assumes "manual_try lx faults ds d = (Inr u, ds')"
  shows "snapshotsOf lx d (selectAvaliacoes ds' d) =
           map (\<lambda>h. h\<lparr>h_leitoStatus := Some PENDENTE\<rparr>) (snapshotsOf lx d (selectAvaliacoes ds d))"
proof -
  note c = manual_try_completed [OF assms]
  have 1: "leitos ds' = map (\<lambda>l. l\<lparr>status := Some PENDENTE\<rparr>) (leitos ds)" by (simp add: c)
  have 2: "unidades ds' = unidades ds" by (simp add: c)
  have 3: "hospitais ds' = hospitais ds" by (simp add: c)
  have 4: "colaboradores ds' = colaboradores ds" by (simp add: c)
  have 5: "avaliacoes ds' =
             map (\<lambda>r. if dataAplicacao r = d then r\<lparr>statusSessao := EXPIRADA\<rparr> else r) (avaliacoes ds)"
    by (simp add: c)
  show ?thesis
    unfolding selectAvaliacoes_def 5 by (rule snapshots_after_rows [OF 1 2 3 4])
qed

lemma two_tries:
  assumes "manual_try lx f1 ds d = (Inr u1, ds1)" and "manual_try lx f2 ds1 d = (Inr u2, ds2)"
  shows "historicos ds2 = historicos ds @ snapshotsOf lx d (selectAvaliacoes ds d) @
           map (\<lambda>h. h\<lparr>h_leitoStatus := Some PENDENTE\<rparr>) (snapshotsOf lx d (selectAvaliacoes ds d))"
proof -
  have a: "historicos ds1 = historicos ds @ snapshotsOf lx d (selectAvaliacoes ds d)"
    by (simp add: manual_try_completed [OF assms(1)])
  have b: "historicos ds2 = historicos ds1 @ snapshotsOf lx d (selectAvaliacoes ds1 d)"
    by (simp add: manual_try_completed [OF assms(2)])
  show ?thesis unfolding b a snapshots_after_run [OF assms(1)] by simp
qed



subsection \<open>The timer loop\<close>

lemma filter_fst_neq_id:
  "h \<notin> fst ` set xs \<Longrightarrow> filter (\<lambda>tm. fst tm \<noteq> h) xs = xs"
  by (induction xs) auto

lemma cancel_noop: "firstHandle s \<notin> fst ` set (armed s) \<Longrightarrow> cancel s = s"
  by (simp add: cancel_def clearTimeout_def filter_fst_neq_id)

lemma start_state:
  "armed (scheduleSessionExpiry lx ds t0) =
     [(0, js_minus (toMillis lx (startOfDay lx (plusDays lx (nowSetZone lx t0 ZONE) 1)))
                   (toMillis lx (nowSetZone lx t0 ZONE)))]"
  "firstHandle (scheduleSessionExpiry lx ds t0) = 0"
  "nextHandle (scheduleSessionExpiry lx ds t0) = 1"
  "awaiting (scheduleSessionExpiry lx ds t0) = 0"
  "db (scheduleSessionExpiry lx ds t0) = ds"
  "ran (scheduleSessionExpiry lx ds t0) = []"
  "console (scheduleSessionExpiry lx ds t0) = []"
  by (simp_all add: scheduleSessionExpiry_def scheduleNext_def Let_def)

lemma step_keeps_first_disarmed:
  assumes "firstHandle s \<notin> fst ` set (armed s)" "firstHandle s < nextHandle s"
    and "step lx ev s = Some s'"
  shows "firstHandle s' = firstHandle s \<and> firstHandle s' \<notin> fst ` set (armed s') \<and>
         firstHandle s' < nextHandle s'"
proof (cases ev)
  case (TimerFires h t faults)
  let ?s0 = "s\<lparr>armed := filter (\<lambda>tm. fst tm \<noteq> h) (armed s)\<rparr>"
  from assms(3) TimerFires have s': "s' = timerCallback lx t faults ?s0"
    by (simp split: if_splits)
  note k = timerCallback_awaiting [of lx t faults ?s0]
  from k assms(1,2) show ?thesis unfolding s' by force
next
  case (CallbackResumes t)
  with assms show ?thesis
    by (force simp: scheduleNext_def Let_def split: if_splits)
next
  case CancelCalled
  with assms show ?thesis by (simp add: cancel_noop)
qed

lemma exec_ignores_cancel:
  assumes "firstHandle s \<notin> fst ` set (armed s)" "firstHandle s < nextHandle s"
  shows "exec lx evs s = exec lx (filter (\<lambda>e. \<not> isCancel e) evs) s"
  using assms
proof (induction evs arbitrary: s)
  case Nil
  then show ?case by simp
next
  case (Cons ev evs)
  show ?case
  proof (cases "isCancel ev")
    case True
    then have ev: "ev = CancelCalled" by (cases ev) simp_all
    from Cons.prems(1) have "cancel s = s" by (rule cancel_noop)
    with ev True Cons.IH [OF Cons.prems] show ?thesis by simp
  next
    case False
    show ?thesis
    proof (cases "step lx ev s")
      case None
      with False show ?thesis by simp
    next
      case (Some s1)
      from step_keeps_first_disarmed [OF Cons.prems Some]
      have "firstHandle s1 \<notin> fst ` set (armed s1)" "firstHandle s1 < nextHandle s1" by blast+
      from Cons.IH [OF this] Some False show ?thesis by simp
    qed
  qed
qed

lemma exec_keeps_loop_alive:
  assumes "firstHandle s \<notin> fst ` set (armed s)" "firstHandle s < nextHandle s"
    and "0 < awaiting s \<or> armed s \<noteq> []"
    and "exec lx evs s = Some s'"
  shows "firstHandle s' = firstHandle s \<and> firstHandle s' \<notin> fst ` set (armed s') \<and>
         (0 < awaiting s' \<or> armed s' \<noteq> [])"
  using assms
proof (induction evs arbitrary: s)
  case Nil
  then show ?case by simp
next
  case (Cons ev evs)
  from Cons.prems(4) obtain s1 where s1: "step lx ev s = Some s1" and r: "exec lx evs s1 = Some s'"
    by (auto split: option.splits)
  note j = step_keeps_first_disarmed [OF Cons.prems(1,2) s1]
  have l: "0 < awaiting s1 \<or> armed s1 \<noteq> []"
  proof (cases ev)
    case (TimerFires h t faults)
    let ?s0 = "s\<lparr>armed := filter (\<lambda>tm. fst tm \<noteq> h) (armed s)\<rparr>"
    from s1 TimerFires have "s1 = timerCallback lx t faults ?s0" by (simp split: if_splits)
    with timerCallback_awaiting [of lx t faults ?s0] show ?thesis by simp
  next
    case (CallbackResumes t)
    with s1 show ?thesis by (auto simp: scheduleNext_def Let_def split: if_splits)
  next
    case CancelCalled
    with s1 Cons.prems(1,3) show ?thesis by (simp add: cancel_noop)
  qed
  from j have j1: "firstHandle s1 \<notin> fst ` set (armed s1)" and j2: "firstHandle s1 < nextHandle s1"
    and j3: "firstHandle s1 = firstHandle s" by blast+
  from Cons.IH [OF j1 j2 l r] have a: "firstHandle s' = firstHandle s1"
    and b: "firstHandle s' \<notin> fst ` set (armed s')" and c: "0 < awaiting s' \<or> armed s' \<noteq> []"
    by blast+
  from a j3 have "firstHandle s' = firstHandle s" by (rule trans)
  with b c show ?case by blast
qed

lemma loop_alive_enabled:
  assumes "0 < awaiting s \<or> armed s \<noteq> []"
  shows "\<exists>ev. \<not> isCancel ev \<and> step lx ev s \<noteq> None"
proof (cases "0 < awaiting s")
  case True
  then have "\<not> isCancel (CallbackResumes 0) \<and> step lx (CallbackResumes 0) s \<noteq> None" by simp
  then show ?thesis by blast
next
  case False
  with assms obtain tm tms where "armed s = tm # tms" by (cases "armed s") auto
  then have "\<not> isCancel (TimerFires (fst tm) 0 noFaults) \<and>
             step lx (TimerFires (fst tm) 0 noFaults) s \<noteq> None" by simp
  then show ?thesis by blast
qed

lemma exec_nothing_armed:
  assumes "armed s = []" "awaiting s = 0" "exec lx evs s = Some s'"
  shows "s' = s \<and> list_all isCancel evs"
  using assms
proof (induction evs)
  case Nil
  then show ?case by simp
next
  case (Cons ev evs)
  from Cons.prems(1) have c: "cancel s = s" by (simp add: cancel_def clearTimeout_def)
  show ?case
  proof (cases ev)
    case (TimerFires h t faults)
    with Cons.prems show ?thesis by simp
  next
    case (CallbackResumes t)
    with Cons.prems show ?thesis by simp
  next
    case CancelCalled
    with Cons c show ?thesis by simp
  qed
qed


lemma first_fire:
  assumes "step lx (TimerFires h t faults) (scheduleSessionExpiry lx ds t0) = Some s1"
  shows "h = 0" "firstHandle s1 = 0" "armed s1 = []" "nextHandle s1 = 1" "awaiting s1 = 1"
proof -
  let ?s0 = "scheduleSessionExpiry lx ds t0"
  let ?sf = "?s0\<lparr>armed := filter (\<lambda>tm. fst tm \<noteq> h) (armed ?s0)\<rparr>"
  from assms show h: "h = 0" by (simp add: start_state split: if_splits)
  from assms have s1: "s1 = timerCallback lx t faults ?sf" by (simp split: if_splits)
  note k = timerCallback_awaiting [of lx t faults ?sf]
  from k show "firstHandle s1 = 0" unfolding s1 by (simp add: start_state)
  from k h show "armed s1 = []" unfolding s1 by (simp add: start_state)
  from k show "nextHandle s1 = 1" unfolding s1 by (simp add: start_state)
  from k show "awaiting s1 = 1" unfolding s1 by (simp add: start_state)
qed


section \<open>The claims\<close>


text \<open>
  Claim C1. The loop turns the fetched assessments into the array \<open>historicos\<close> by
  giving each assessment with a bed exactly one snapshot and each assessment without a
  bed none, and does nothing else for the latter. A rollover that completes appends
  exactly that array to the table of snapshots, so the table grows by the number of
  fetched assessments that have a bed. This holds for both entry points.
\<close>
theorem rollover_snapshot_per_assessment_with_bed:
  "fst (manual_collect lx d avals ([], {})) =
     concat (map (\<lambda>a. case leito a of None \<Rightarrow> [] | Some l \<Rightarrow> [manual_h lx d a l]) avals) \<and>
   fst (sched_collect lx d avals ([], {})) =
     concat (map (\<lambda>a. case leito a of None \<Rightarrow> [] | Some l \<Rightarrow> [sched_h lx d a l]) avals) \<and>
   (fst (snd (runSessionExpiryForDate lx faults ds d)) = Inr () \<longrightarrow>
      historicos (snd (snd (runSessionExpiryForDate lx faults ds d))) =
        historicos ds @ fst (manual_collect lx d (selectAvaliacoes ds d) ([], {})) \<and>
      length (historicos (snd (snd (runSessionExpiryForDate lx faults ds d)))) =
        length (historicos ds) + length (filter (\<lambda>a. leito a \<noteq> None) (selectAvaliacoes ds d))) \<and>
   (fst (runForDate lx faults ds d) = [] \<longrightarrow>
      historicos (snd (snd (runForDate lx faults ds d))) =
        historicos ds @ fst (sched_collect lx d (selectAvaliacoes ds d) ([], {})) \<and>
      length (historicos (snd (snd (runForDate lx faults ds d)))) =
        length (historicos ds) + length (filter (\<lambda>a. leito a \<noteq> None) (selectAvaliacoes ds d)))"
proof (intro conjI impI)
  show "fst (manual_collect lx d avals ([], {})) = snapshotsOf lx d avals"
    by (simp add: manual_collect_app)
  show "fst (sched_collect lx d avals ([], {})) =
     concat (map (\<lambda>a. case leito a of None \<Rightarrow> [] | Some l \<Rightarrow> [sched_h lx d a l]) avals)"
    unfolding sched_h_eq sched_collect_eq by (simp add: manual_collect_app)
next
  assume c: "fst (snd (runSessionExpiryForDate lx faults ds d)) = Inr ()"
  show "historicos (snd (snd (runSessionExpiryForDate lx faults ds d))) =
        historicos ds @ fst (manual_collect lx d (selectAvaliacoes ds d) ([], {}))"
    by (simp add: manual_run_completed [OF c] manual_collect_app)
  show "length (historicos (snd (snd (runSessionExpiryForDate lx faults ds d)))) =
        length (historicos ds) + length (filter (\<lambda>a. leito a \<noteq> None) (selectAvaliacoes ds d))"
    using length_snapshotsOf [of lx d "selectAvaliacoes ds d"]
    by (simp add: manual_run_completed [OF c])
next
  assume c: "fst (runForDate lx faults ds d) = []"
  show "historicos (snd (snd (runForDate lx faults ds d))) =
        historicos ds @ fst (sched_collect lx d (selectAvaliacoes ds d) ([], {}))"
    by (simp add: sched_run_completed [OF c] sched_collect_eq manual_collect_app)
  show "length (historicos (snd (snd (runForDate lx faults ds d)))) =
        length (historicos ds) + length (filter (\<lambda>a. leito a \<noteq> None) (selectAvaliacoes ds d))"
    using length_snapshotsOf [of lx d "selectAvaliacoes ds d"]
    by (simp add: sched_run_completed [OF c])
qed

theorem rollover_snapshot_per_assessment_with_bed_witness:
  "fst (snd (runSessionExpiryForDate luxonSaoPaulo noFaults ward ''2024-01-15'')) = Inr () \<and>
   fst (runForDate luxonSaoPaulo noFaults ward ''2024-01-15'') = [] \<and>
   map (\<lambda>a. leito a \<noteq> None) (selectAvaliacoes ward ''2024-01-15'') = [True, False] \<and>
   length (historicos ward) = 0 \<and>
   length (historicos (snd (snd (runSessionExpiryForDate luxonSaoPaulo noFaults ward ''2024-01-15'')))) = 1 \<and>
   length (historicos (snd (snd (runForDate luxonSaoPaulo noFaults ward ''2024-01-15'')))) = 1"
proof -
  have a: "fst (snd (runSessionExpiryForDate luxonSaoPaulo noFaults ward ''2024-01-15'')) = Inr ()"
    by code_simp
  have b: "fst (runForDate luxonSaoPaulo noFaults ward ''2024-01-15'') = []"
    by code_simp
  have c: "map (\<lambda>a. leito a \<noteq> None) (selectAvaliacoes ward ''2024-01-15'') = [True, False]"
    by code_simp
  have e: "length (historicos ward) = 0" by (simp add: ward_def)
  have n: "length (filter (\<lambda>a. leito a \<noteq> None) (selectAvaliacoes ward ''2024-01-15'')) = 1"
    by code_simp
  note t = rollover_snapshot_per_assessment_with_bed
             [of luxonSaoPaulo "''2024-01-15''" "[]" noFaults ward]
  from t a have "length (historicos (snd (snd (runSessionExpiryForDate luxonSaoPaulo noFaults ward ''2024-01-15'')))) =
        length (historicos ward) + length (filter (\<lambda>a. leito a \<noteq> None) (selectAvaliacoes ward ''2024-01-15''))"
    by blast
  with e n have m: "length (historicos (snd (snd (runSessionExpiryForDate luxonSaoPaulo noFaults ward ''2024-01-15'')))) = 1"
    by simp
  from t b have "length (historicos (snd (snd (runForDate luxonSaoPaulo noFaults ward ''2024-01-15'')))) =
        length (historicos ward) + length (filter (\<lambda>a. leito a \<noteq> None) (selectAvaliacoes ward ''2024-01-15''))"
    by blast
  with e n have s: "length (historicos (snd (snd (runForDate luxonSaoPaulo noFaults ward ''2024-01-15'')))) = 1"
    by simp
  from a b c e m s show ?thesis by blast
qed

text \<open>
  Claim C2. After a rollover that completes, the table of beds is the old table with
  every status set to \<open>PENDENTE\<close>: every bed is pending, whatever its status was
  (occupied, maintenance) and whether or not it had an assessment on the date.
\<close>
theorem rollover_resets_every_bed:
  "(fst (snd (runSessionExpiryForDate lx faults ds d)) = Inr () \<longrightarrow>
      leitos (snd (snd (runSessionExpiryForDate lx faults ds d))) =
        map (\<lambda>l. l\<lparr>status := Some PENDENTE\<rparr>) (leitos ds) \<and>
      (\<forall>l \<in> set (leitos (snd (snd (runSessionExpiryForDate lx faults ds d)))).
         status l = Some PENDENTE)) \<and>
   (fst (runForDate lx faults ds d) = [] \<longrightarrow>
      leitos (snd (snd (runForDate lx faults ds d))) =
        map (\<lambda>l. l\<lparr>status := Some PENDENTE\<rparr>) (leitos ds) \<and>
      (\<forall>l \<in> set (leitos (snd (snd (runForDate lx faults ds d)))).
         status l = Some PENDENTE))"
proof (intro conjI impI)
  assume c: "fst (snd (runSessionExpiryForDate lx faults ds d)) = Inr ()"
  show m: "leitos (snd (snd (runSessionExpiryForDate lx faults ds d))) =
        map (\<lambda>l. l\<lparr>status := Some PENDENTE\<rparr>) (leitos ds)"
    by (simp add: manual_run_completed [OF c])
  show "\<forall>l \<in> set (leitos (snd (snd (runSessionExpiryForDate lx faults ds d)))). status l = Some PENDENTE"
    unfolding m by simp
next
  assume c: "fst (runForDate lx faults ds d) = []"
  show m: "leitos (snd (snd (runForDate lx faults ds d))) =
        map (\<lambda>l. l\<lparr>status := Some PENDENTE\<rparr>) (leitos ds)"
    by (simp add: sched_run_completed [OF c])
  show "\<forall>l \<in> set (leitos (snd (snd (runForDate lx faults ds d)))). status l = Some PENDENTE"
    unfolding m by simp
qed

theorem rollover_resets_every_bed_witness:
  "fst (snd (runSessionExpiryForDate luxonSaoPaulo noFaults ward ''2024-01-15'')) = Inr () \<and>
   fst (runForDate luxonSaoPaulo noFaults ward ''2024-01-15'') = [] \<and>
   map status (leitos ward) = [Some OCUPADO, Some (MANUT ''LIMPEZA'')] \<and>
   map status (leitos (snd (snd (runSessionExpiryForDate luxonSaoPaulo noFaults ward ''2024-01-15'')))) =
     [Some PENDENTE, Some PENDENTE] \<and>
   map status (leitos (snd (snd (runForDate luxonSaoPaulo noFaults ward ''2024-01-15'')))) =
     [Some PENDENTE, Some PENDENTE]"
proof -
  have a: "fst (snd (runSessionExpiryForDate luxonSaoPaulo noFaults ward ''2024-01-15'')) = Inr ()"
    by code_simp
  have b: "fst (runForDate luxonSaoPaulo noFaults ward ''2024-01-15'') = []"
    by code_simp
  have c: "map status (leitos ward) = [Some OCUPADO, Some (MANUT ''LIMPEZA'')]"
    by (simp add: ward_def)
  have e: "map status (map (\<lambda>l. l\<lparr>status := Some PENDENTE\<rparr>) (leitos ward)) = [Some PENDENTE, Some PENDENTE]"
    by (simp add: ward_def)
  note t = rollover_resets_every_bed [of luxonSaoPaulo noFaults ward "''2024-01-15''"]
  from t a have "leitos (snd (snd (runSessionExpiryForDate luxonSaoPaulo noFaults ward ''2024-01-15''))) =
        map (\<lambda>l. l\<lparr>status := Some PENDENTE\<rparr>) (leitos ward)" by blast
  with e have m: "map status (leitos (snd (snd (runSessionExpiryForDate luxonSaoPaulo noFaults ward ''2024-01-15'')))) =
     [Some PENDENTE, Some PENDENTE]" by simp
  from t b have "leitos (snd (snd (runForDate luxonSaoPaulo noFaults ward ''2024-01-15''))) =
        map (\<lambda>l. l\<lparr>status := Some PENDENTE\<rparr>) (leitos ward)" by blast
  with e have s: "map status (leitos (snd (snd (runForDate luxonSaoPaulo noFaults ward ''2024-01-15'')))) =
     [Some PENDENTE, Some PENDENTE]" by simp
  from a b c m s show ?thesis by blast
qed

text \<open>
  Claim C3. After a rollover for \<open>d\<close> that completes, the table of assessments is the
  old table in which every row of date \<open>d\<close> has session status \<open>EXPIRADA\<close> and is
  otherwise unchanged, and every row of another date is unchanged.
\<close>
theorem rollover_expires_sessions_of_the_date:
  "(fst (snd (runSessionExpiryForDate lx faults ds d)) = Inr () \<longrightarrow>
      avaliacoes (snd (snd (runSessionExpiryForDate lx faults ds d))) =
        map (\<lambda>r. if dataAplicacao r = d then r\<lparr>statusSessao := EXPIRADA\<rparr> else r) (avaliacoes ds)) \<and>
   (fst (runForDate lx faults ds d) = [] \<longrightarrow>
      avaliacoes (snd (snd (runForDate lx faults ds d))) =
        map (\<lambda>r. if dataAplicacao r = d then r\<lparr>statusSessao := EXPIRADA\<rparr> else r) (avaliacoes ds))"
proof (intro conjI impI)
  assume c: "fst (snd (runSessionExpiryForDate lx faults ds d)) = Inr ()"
  show "avaliacoes (snd (snd (runSessionExpiryForDate lx faults ds d))) =
        map (\<lambda>r. if dataAplicacao r = d then r\<lparr>statusSessao := EXPIRADA\<rparr> else r) (avaliacoes ds)"
    by (simp add: manual_run_completed [OF c])
next
  assume c: "fst (runForDate lx faults ds d) = []"
  show "avaliacoes (snd (snd (runForDate lx faults ds d))) =
        map (\<lambda>r. if dataAplicacao r = d then r\<lparr>statusSessao := EXPIRADA\<rparr> else r) (avaliacoes ds)"
    by (simp add: sched_run_completed [OF c])
qed

theorem rollover_expires_sessions_of_the_date_witness:
  "fst (snd (runSessionExpiryForDate luxonSaoPaulo noFaults ward ''2024-01-15'')) = Inr () \<and>
   fst (runForDate luxonSaoPaulo noFaults ward ''2024-01-15'') = [] \<and>
   map (\<lambda>r. (dataAplicacao r, statusSessao r))
     (avaliacoes (snd (snd (runSessionExpiryForDate luxonSaoPaulo noFaults ward ''2024-01-15'')))) =
     [(''2024-01-15'', EXPIRADA), (''2024-01-15'', EXPIRADA),
      (''2024-01-16'', StatusSessaoOutro ''ATIVA'')] \<and>
   map (\<lambda>r. (dataAplicacao r, statusSessao r))
     (avaliacoes (snd (snd (runForDate luxonSaoPaulo noFaults ward ''2024-01-15'')))) =
     [(''2024-01-15'', EXPIRADA), (''2024-01-15'', EXPIRADA),
      (''2024-01-16'', StatusSessaoOutro ''ATIVA'')]"
proof -
  have a: "fst (snd (runSessionExpiryForDate luxonSaoPaulo noFaults ward ''2024-01-15'')) = Inr ()"
    by code_simp
  have b: "fst (runForDate luxonSaoPaulo noFaults ward ''2024-01-15'') = []"
    by code_simp
  have e: "map (\<lambda>r. (dataAplicacao r, statusSessao r))
             (map (\<lambda>r. if dataAplicacao r = ''2024-01-15'' then r\<lparr>statusSessao := EXPIRADA\<rparr> else r)
                (avaliacoes ward)) =
           [(''2024-01-15'', EXPIRADA), (''2024-01-15'', EXPIRADA),
            (''2024-01-16'', StatusSessaoOutro ''ATIVA'')]"
    by (simp add: ward_def)
  note t = rollover_expires_sessions_of_the_date [of luxonSaoPaulo noFaults ward "''2024-01-15''"]
  from t a have "avaliacoes (snd (snd (runSessionExpiryForDate luxonSaoPaulo noFaults ward ''2024-01-15''))) =
        map (\<lambda>r. if dataAplicacao r = ''2024-01-15'' then r\<lparr>statusSessao := EXPIRADA\<rparr> else r)
          (avaliacoes ward)" by blast
  with e have m: "map (\<lambda>r. (dataAplicacao r, statusSessao r))
     (avaliacoes (snd (snd (runSessionExpiryForDate luxonSaoPaulo noFaults ward ''2024-01-15'')))) =
     [(''2024-01-15'', EXPIRADA), (''2024-01-15'', EXPIRADA),
      (''2024-01-16'', StatusSessaoOutro ''ATIVA'')]" by simp
  from t b have "avaliacoes (snd (snd (runForDate luxonSaoPaulo noFaults ward ''2024-01-15''))) =
        map (\<lambda>r. if dataAplicacao r = ''2024-01-15'' then r\<lparr>statusSessao := EXPIRADA\<rparr> else r)
          (avaliacoes ward)" by blast
  with e have s: "map (\<lambda>r. (dataAplicacao r, statusSessao r))
     (avaliacoes (snd (snd (runForDate luxonSaoPaulo noFaults ward ''2024-01-15'')))) =
     [(''2024-01-15'', EXPIRADA), (''2024-01-15'', EXPIRADA),
      (''2024-01-16'', StatusSessaoOutro ''ATIVA'')]" by simp
  from a b m s show ?thesis by blast
qed




text \<open>
  Claim C5. A run issues the operations \<open>getRepository\<close>, \<open>find\<close>, one \<open>save\<close> per
  snapshot, the update of the beds and the update of the assessments. When any of them
  throws, and \<open>e\<close> is the first error, \<open>runSessionExpiryForDate\<close> writes one warning
  with \<open>e\<close> and rejects with \<open>e\<close>; \<open>runForDate\<close> writes one warning with \<open>e\<close> and
  is fulfilled, so the timer callback that awaited it goes on: it is not ended by the
  error, and when it resumes it arms the next timer.
\<close>
theorem store_error_warned_then_rethrown_or_swallowed:
  "List.map_filter faults
     ([OpGetRepository, OpFind] @
      map OpSave [0..<length (filter (\<lambda>a. leito a \<noteq> None) (selectAvaliacoes ds d))] @
      [OpUpdateLeito, OpUpdateAvaliacao]) = e # es \<Longrightarrow>
   fst (runSessionExpiryForDate lx faults ds d) = [(''Job manual run failed:'', e)] \<and>
   fst (snd (runSessionExpiryForDate lx faults ds d)) = Inl e \<and>
   fst (runForDate lx faults ds d) = [(''Job daily-reset falhou:'', e)] \<and>
   fst (snd (runForDate lx faults ds d)) = Inr () \<and>
   (h \<in> fst ` set (armed s) \<longrightarrow>
      (\<exists>s'. step lx (TimerFires h t faults) s = Some s' \<and>
            awaiting s' = Suc (awaiting s) \<and> died s' = died s \<and>
            (\<exists>s''. step lx (CallbackResumes t') s' = Some s'' \<and>
                   length (armed s'') = Suc (length (armed s')))))"
proof -
  assume a: "List.map_filter faults
     ([OpGetRepository, OpFind] @
      map OpSave [0..<length (filter (\<lambda>a. leito a \<noteq> None) (selectAvaliacoes ds d))] @
      [OpUpdateLeito, OpUpdateAvaliacao]) = e # es"
  have o: "fst (manual_try lx faults ds d) = Inl e"
    unfolding manual_try_outcome a by simp
  have 1: "fst (runSessionExpiryForDate lx faults ds d) = [(''Job manual run failed:'', e)]"
    by (simp add: manual_run_eq o)
  have 2: "fst (snd (runSessionExpiryForDate lx faults ds d)) = Inl e"
    by (simp add: manual_run_eq o)
  have 3: "fst (runForDate lx faults ds d) = [(''Job daily-reset falhou:'', e)]"
    by (simp add: sched_run_eq o)
  have 4: "fst (snd (runForDate lx faults ds d)) = Inr ()"
    by (rule sched_run_outcome)
  have 5: "h \<in> fst ` set (armed s) \<longrightarrow>
      (\<exists>s'. step lx (TimerFires h t faults) s = Some s' \<and>
            awaiting s' = Suc (awaiting s) \<and> died s' = died s \<and>
            (\<exists>s''. step lx (CallbackResumes t') s' = Some s'' \<and>
                   length (armed s'') = Suc (length (armed s'))))"
  proof
    assume h: "h \<in> fst ` set (armed s)"
    let ?s0 = "s\<lparr>armed := filter (\<lambda>tm. fst tm \<noteq> h) (armed s)\<rparr>"
    let ?s' = "timerCallback lx t faults ?s0"
    from h have st: "step lx (TimerFires h t faults) s = Some ?s'" by simp
    have aw: "awaiting ?s' = Suc (awaiting s)" and di: "died ?s' = died s"
      using timerCallback_awaiting [of lx t faults ?s0] by simp_all
    have "step lx (CallbackResumes t') ?s' =
            Some (snd (scheduleNext lx t' (?s'\<lparr>awaiting := awaiting ?s' - 1\<rparr>)))"
      using aw by simp
    moreover have "length (armed (snd (scheduleNext lx t' (?s'\<lparr>awaiting := awaiting ?s' - 1\<rparr>)))) =
            Suc (length (armed ?s'))"
      by (simp add: scheduleNext_def Let_def)
    ultimately show "\<exists>s'. step lx (TimerFires h t faults) s = Some s' \<and>
            awaiting s' = Suc (awaiting s) \<and> died s' = died s \<and>
            (\<exists>s''. step lx (CallbackResumes t') s' = Some s'' \<and>
                   length (armed s'') = Suc (length (armed s')))"
      using st aw di by blast
  qed
  from 1 2 3 4 5 show ?thesis by blast
qed

theorem store_error_warned_then_rethrown_or_swallowed_witness:
  "List.map_filter (failAt (OpSave 0))
     ([OpGetRepository, OpFind] @
      map OpSave [0..<length (filter (\<lambda>a. leito a \<noteq> None) (selectAvaliacoes ward ''2024-01-15''))] @
      [OpUpdateLeito, OpUpdateAvaliacao]) = [DbError ''connection lost''] \<and>
   (0::nat) \<in> fst ` set (armed (scheduleSessionExpiry luxonSaoPaulo ward 1705370400000)) \<and>
   fst (runSessionExpiryForDate luxonSaoPaulo (failAt (OpSave 0)) ward ''2024-01-15'') =
     [(''Job manual run failed:'', DbError ''connection lost'')] \<and>
   fst (snd (runSessionExpiryForDate luxonSaoPaulo (failAt (OpSave 0)) ward ''2024-01-15'')) =
     Inl (DbError ''connection lost'') \<and>
   fst (runForDate luxonSaoPaulo (failAt (OpSave 0)) ward ''2024-01-15'') =
     [(''Job daily-reset falhou:'', DbError ''connection lost'')] \<and>
   fst (snd (runForDate luxonSaoPaulo (failAt (OpSave 0)) ward ''2024-01-15'')) = Inr () \<and>
   (\<exists>s'. step luxonSaoPaulo (TimerFires 0 1705374000005 (failAt (OpSave 0)))
            (scheduleSessionExpiry luxonSaoPaulo ward 1705370400000) = Some s' \<and>
         (\<exists>s''. step luxonSaoPaulo (CallbackResumes 1705374000050) s' = Some s''))"
proof -
  have a: "List.map_filter (failAt (OpSave 0))
     ([OpGetRepository, OpFind] @
      map OpSave [0..<length (filter (\<lambda>a. leito a \<noteq> None) (selectAvaliacoes ward ''2024-01-15''))] @
      [OpUpdateLeito, OpUpdateAvaliacao]) = [DbError ''connection lost'']"
    by code_simp
  have b: "(0::nat) \<in> fst ` set (armed (scheduleSessionExpiry luxonSaoPaulo ward 1705370400000))"
    by (simp add: scheduleSessionExpiry_def scheduleNext_def Let_def)
  note t = store_error_warned_then_rethrown_or_swallowed
             [OF a, of luxonSaoPaulo 0 "scheduleSessionExpiry luxonSaoPaulo ward 1705370400000"
                1705374000005 1705374000050]
  from t a b show ?thesis by blast
qed

text \<open>
  Claim C6. When the fetch of the assessments throws, both entry points leave every
  table exactly as it was, and the failure is reported (the error reported is the one
  of the fetch, unless obtaining the repositories had already thrown).
\<close>
theorem failed_fetch_writes_nothing:
  "faults OpFind = Some e \<Longrightarrow>
   snd (snd (runSessionExpiryForDate lx faults ds d)) = ds \<and>
   snd (snd (runForDate lx faults ds d)) = ds \<and>
   (\<exists>e'. fst (snd (runSessionExpiryForDate lx faults ds d)) = Inl e' \<and>
         fst (runSessionExpiryForDate lx faults ds d) = [(''Job manual run failed:'', e')] \<and>
         fst (runForDate lx faults ds d) = [(''Job daily-reset falhou:'', e')] \<and>
         (faults OpGetRepository = None \<longrightarrow> e' = e))"
proof -
  assume f: "faults OpFind = Some e"
  show ?thesis
  proof (cases "faults OpGetRepository")
    case None
    with f have "manual_try lx faults ds d = (Inl e, ds)"
      by (simp add: manual_try_unfold ds_getRepositories_def repo_find_def)
    then show ?thesis by (simp add: manual_run_eq sched_run_eq)
  next
    case (Some e')
    then have "manual_try lx faults ds d = (Inl e', ds)"
      by (simp add: manual_try_unfold ds_getRepositories_def)
    with Some show ?thesis by (simp add: manual_run_eq sched_run_eq)
  qed
qed

theorem failed_fetch_writes_nothing_witness:
  "failAt OpFind OpFind = Some (DbError ''connection lost'') \<and>
   failAt OpFind OpGetRepository = None \<and>
   snd (snd (runSessionExpiryForDate luxonSaoPaulo (failAt OpFind) ward ''2024-01-15'')) = ward \<and>
   snd (snd (runForDate luxonSaoPaulo (failAt OpFind) ward ''2024-01-15'')) = ward \<and>
   fst (snd (runSessionExpiryForDate luxonSaoPaulo (failAt OpFind) ward ''2024-01-15'')) =
     Inl (DbError ''connection lost'')"
proof -
  have a: "failAt OpFind OpFind = Some (DbError ''connection lost'')" by (simp add: failAt_def)
  have b: "failAt OpFind OpGetRepository = None" by (simp add: failAt_def)
  note t = failed_fetch_writes_nothing
             [where faults = "failAt OpFind" and e = "DbError ''connection lost''"
                and lx = luxonSaoPaulo and ds = ward and d = "''2024-01-15''"]
  from t [OF a] a b show ?thesis by auto
qed



text \<open>
  Claim C7. Two rollovers for \<open>d\<close> in succession, both completing, leave two snapshot
  rows for each assessment of \<open>d\<close> that has a bed: the rows of the first run stay, and
  the second run appends the same snapshots again, now with the bed status that the
  first run left (\<open>PENDENTE\<close>). Nothing is deduplicated or replaced.
\<close>
theorem rollover_twice_duplicates_snapshots:
  "(fst (snd (runSessionExpiryForDate lx f1 ds d)) = Inr () \<and>
    fst (snd (runSessionExpiryForDate lx f2 (snd (snd (runSessionExpiryForDate lx f1 ds d))) d)) = Inr () \<longrightarrow>
      historicos (snd (snd (runSessionExpiryForDate lx f2 (snd (snd (runSessionExpiryForDate lx f1 ds d))) d))) =
        historicos ds @ fst (manual_collect lx d (selectAvaliacoes ds d) ([], {})) @
        map (\<lambda>h. h\<lparr>h_leitoStatus := Some PENDENTE\<rparr>)
          (fst (manual_collect lx d (selectAvaliacoes ds d) ([], {}))) \<and>
      length (historicos (snd (snd (runSessionExpiryForDate lx f2 (snd (snd (runSessionExpiryForDate lx f1 ds d))) d)))) =
        length (historicos ds) + 2 * length (filter (\<lambda>a. leito a \<noteq> None) (selectAvaliacoes ds d))) \<and>
   (fst (runForDate lx f1 ds d) = [] \<and>
    fst (runForDate lx f2 (snd (snd (runForDate lx f1 ds d))) d) = [] \<longrightarrow>
      historicos (snd (snd (runForDate lx f2 (snd (snd (runForDate lx f1 ds d))) d))) =
        historicos ds @ fst (sched_collect lx d (selectAvaliacoes ds d) ([], {})) @
        map (\<lambda>h. h\<lparr>h_leitoStatus := Some PENDENTE\<rparr>)
          (fst (sched_collect lx d (selectAvaliacoes ds d) ([], {}))) \<and>
      length (historicos (snd (snd (runForDate lx f2 (snd (snd (runForDate lx f1 ds d))) d)))) =
        length (historicos ds) + 2 * length (filter (\<lambda>a. leito a \<noteq> None) (selectAvaliacoes ds d)))"
proof -
  let ?hs = "snapshotsOf lx d (selectAvaliacoes ds d)"
  have twice: "historicos ds2 = historicos ds @ ?hs @ map (\<lambda>h. h\<lparr>h_leitoStatus := Some PENDENTE\<rparr>) ?hs \<and>
      length (historicos ds2) =
        length (historicos ds) + 2 * length (filter (\<lambda>a. leito a \<noteq> None) (selectAvaliacoes ds d))"
    if "manual_try lx f1 ds d = (Inr (), ds1)" "manual_try lx f2 ds1 d = (Inr (), ds2)" for ds1 ds2
  proof -
    have h: "historicos ds2 = historicos ds @ ?hs @ map (\<lambda>h. h\<lparr>h_leitoStatus := Some PENDENTE\<rparr>) ?hs"
      by (rule two_tries [OF that])
    have "length (historicos ds2) = length (historicos ds) + 2 * length ?hs"
      unfolding h by simp
    with h show ?thesis by (simp only: length_snapshotsOf)
  qed
  have mc: "fst (manual_collect lx d (selectAvaliacoes ds d) ([], {})) = ?hs"
    by (simp add: manual_collect_app)
  have sc: "fst (sched_collect lx d (selectAvaliacoes ds d) ([], {})) = ?hs"
    by (simp add: sched_collect_eq manual_collect_app)
  show ?thesis unfolding mc sc
  proof (intro conjI impI; elim conjE)
    assume a: "fst (snd (runSessionExpiryForDate lx f1 ds d)) = Inr ()"
      and b: "fst (snd (runSessionExpiryForDate lx f2 (snd (snd (runSessionExpiryForDate lx f1 ds d))) d)) = Inr ()"
    from a obtain ds1 where 1: "manual_try lx f1 ds d = (Inr (), ds1)"
      by (auto simp: manual_completed_iff)
    then have e1: "snd (snd (runSessionExpiryForDate lx f1 ds d)) = ds1" by (simp add: manual_run_ds)
    from b obtain ds2 where 2: "manual_try lx f2 ds1 d = (Inr (), ds2)"
      unfolding e1 by (auto simp: manual_completed_iff)
    then have e2: "snd (snd (runSessionExpiryForDate lx f2 ds1 d)) = ds2" by (simp add: manual_run_ds)
    from twice [OF 1 2]
    show "historicos (snd (snd (runSessionExpiryForDate lx f2 (snd (snd (runSessionExpiryForDate lx f1 ds d))) d))) =
        historicos ds @ ?hs @ map (\<lambda>h. h\<lparr>h_leitoStatus := Some PENDENTE\<rparr>) ?hs"
      and "length (historicos (snd (snd (runSessionExpiryForDate lx f2 (snd (snd (runSessionExpiryForDate lx f1 ds d))) d)))) =
        length (historicos ds) + 2 * length (filter (\<lambda>a. leito a \<noteq> None) (selectAvaliacoes ds d))"
      unfolding e1 e2 by blast+
  next
    assume a: "fst (runForDate lx f1 ds d) = []"
      and b: "fst (runForDate lx f2 (snd (snd (runForDate lx f1 ds d))) d) = []"
    from a obtain ds1 where 1: "manual_try lx f1 ds d = (Inr (), ds1)"
      by (auto simp: sched_completed_iff)
    then have e1: "snd (snd (runForDate lx f1 ds d)) = ds1" by (simp add: sched_run_ds)
    from b obtain ds2 where 2: "manual_try lx f2 ds1 d = (Inr (), ds2)"
      unfolding e1 by (auto simp: sched_completed_iff)
    then have e2: "snd (snd (runForDate lx f2 ds1 d)) = ds2" by (simp add: sched_run_ds)
    from twice [OF 1 2]
    show "historicos (snd (snd (runForDate lx f2 (snd (snd (runForDate lx f1 ds d))) d))) =
        historicos ds @ ?hs @ map (\<lambda>h. h\<lparr>h_leitoStatus := Some PENDENTE\<rparr>) ?hs"
      and "length (historicos (snd (snd (runForDate lx f2 (snd (snd (runForDate lx f1 ds d))) d)))) =
        length (historicos ds) + 2 * length (filter (\<lambda>a. leito a \<noteq> None) (selectAvaliacoes ds d))"
      unfolding e1 e2 by blast+
  qed
qed

theorem rollover_twice_duplicates_snapshots_witness:
  "fst (snd (runSessionExpiryForDate luxonSaoPaulo noFaults ward ''2024-01-15'')) = Inr () \<and>
   fst (snd (runSessionExpiryForDate luxonSaoPaulo noFaults
               (snd (snd (runSessionExpiryForDate luxonSaoPaulo noFaults ward ''2024-01-15'')))
               ''2024-01-15'')) = Inr () \<and>
   fst (runForDate luxonSaoPaulo noFaults ward ''2024-01-15'') = [] \<and>
   fst (runForDate luxonSaoPaulo noFaults
          (snd (snd (runForDate luxonSaoPaulo noFaults ward ''2024-01-15''))) ''2024-01-15'') = [] \<and>
   length (historicos (snd (snd (runSessionExpiryForDate luxonSaoPaulo noFaults
               (snd (snd (runSessionExpiryForDate luxonSaoPaulo noFaults ward ''2024-01-15'')))
               ''2024-01-15'')))) = 2 \<and>
   length (historicos (snd (snd (runForDate luxonSaoPaulo noFaults
          (snd (snd (runForDate luxonSaoPaulo noFaults ward ''2024-01-15''))) ''2024-01-15'')))) = 2"
proof -
  have a: "fst (snd (runSessionExpiryForDate luxonSaoPaulo noFaults ward ''2024-01-15'')) = Inr ()"
    by code_simp
  have b: "fst (snd (runSessionExpiryForDate luxonSaoPaulo noFaults
               (snd (snd (runSessionExpiryForDate luxonSaoPaulo noFaults ward ''2024-01-15'')))
               ''2024-01-15'')) = Inr ()"
    by code_simp
  have c: "fst (runForDate luxonSaoPaulo noFaults ward ''2024-01-15'') = []"
    by code_simp
  have e: "fst (runForDate luxonSaoPaulo noFaults
          (snd (snd (runForDate luxonSaoPaulo noFaults ward ''2024-01-15''))) ''2024-01-15'') = []"
    by code_simp
  have n: "length (historicos ward) +
             2 * length (filter (\<lambda>a. leito a \<noteq> None) (selectAvaliacoes ward ''2024-01-15'')) = 2"
    by code_simp
  note t = rollover_twice_duplicates_snapshots
             [of luxonSaoPaulo noFaults ward "''2024-01-15''" noFaults]
  from t a b have "length (historicos (snd (snd (runSessionExpiryForDate luxonSaoPaulo noFaults
               (snd (snd (runSessionExpiryForDate luxonSaoPaulo noFaults ward ''2024-01-15'')))
               ''2024-01-15'')))) =
      length (historicos ward) +
             2 * length (filter (\<lambda>a. leito a \<noteq> None) (selectAvaliacoes ward ''2024-01-15''))"
    by blast
  then have m: "length (historicos (snd (snd (runSessionExpiryForDate luxonSaoPaulo noFaults
               (snd (snd (runSessionExpiryForDate luxonSaoPaulo noFaults ward ''2024-01-15'')))
               ''2024-01-15'')))) = 2"
    unfolding n .
  from t c e have "length (historicos (snd (snd (runForDate luxonSaoPaulo noFaults
          (snd (snd (runForDate luxonSaoPaulo noFaults ward ''2024-01-15''))) ''2024-01-15'')))) =
      length (historicos ward) +
             2 * length (filter (\<lambda>a. leito a \<noteq> None) (selectAvaliacoes ward ''2024-01-15''))"
    by blast
  then have s: "length (historicos (snd (snd (runForDate luxonSaoPaulo noFaults
          (snd (snd (runForDate luxonSaoPaulo noFaults ward ''2024-01-15''))) ''2024-01-15'')))) = 2"
    unfolding n .
  from a b c e m s show ?thesis by blast
qed

text \<open>
  Claim C8. For every state of the tables, target date and fault plan, the two \<open>try\<close>
  blocks compute the same outcome and the same tables, so both entry points leave the
  same tables; both write no warning when the block completes and one warning with the
  same error when it throws (under their own message texts). They differ in what the
  caller sees: \<open>runSessionExpiryForDate\<close> rejects with the error, \<open>runForDate\<close> is
  always fulfilled.
\<close>
theorem entry_points_differ_only_in_error_propagation:
  "sched_try lx faults ds d = manual_try lx faults ds d \<and>
   snd (snd (runForDate lx faults ds d)) = snd (snd (runSessionExpiryForDate lx faults ds d)) \<and>
   (case fst (snd (runSessionExpiryForDate lx faults ds d)) of
      Inr _ \<Rightarrow> fst (runSessionExpiryForDate lx faults ds d) = [] \<and> fst (runForDate lx faults ds d) = []
    | Inl e \<Rightarrow> fst (runSessionExpiryForDate lx faults ds d) = [(''Job manual run failed:'', e)] \<and>
               fst (runForDate lx faults ds d) = [(''Job daily-reset falhou:'', e)]) \<and>
   fst (snd (runForDate lx faults ds d)) = Inr ()"
proof (intro conjI)
  show "sched_try lx faults ds d = manual_try lx faults ds d" by (rule sched_try_eq)
  show "snd (snd (runForDate lx faults ds d)) = snd (snd (runSessionExpiryForDate lx faults ds d))"
    by (simp only: manual_run_ds sched_run_ds)
  show "case fst (snd (runSessionExpiryForDate lx faults ds d)) of
      Inr _ \<Rightarrow> fst (runSessionExpiryForDate lx faults ds d) = [] \<and> fst (runForDate lx faults ds d) = []
    | Inl e \<Rightarrow> fst (runSessionExpiryForDate lx faults ds d) = [(''Job manual run failed:'', e)] \<and>
               fst (runForDate lx faults ds d) = [(''Job daily-reset falhou:'', e)]"
    by (cases "fst (manual_try lx faults ds d)") (simp_all add: manual_run_eq sched_run_eq)
  show "fst (snd (runForDate lx faults ds d)) = Inr ()" by (rule sched_run_outcome)
qed

theorem entry_points_differ_only_in_error_propagation_witness:
  "snd (snd (runForDate luxonSaoPaulo (failAt OpUpdateLeito) ward ''2024-01-15'')) =
     snd (snd (runSessionExpiryForDate luxonSaoPaulo (failAt OpUpdateLeito) ward ''2024-01-15'')) \<and>
   fst (snd (runSessionExpiryForDate luxonSaoPaulo (failAt OpUpdateLeito) ward ''2024-01-15'')) =
     Inl (DbError ''connection lost'') \<and>
   fst (runForDate luxonSaoPaulo (failAt OpUpdateLeito) ward ''2024-01-15'') =
     [(''Job daily-reset falhou:'', DbError ''connection lost'')] \<and>
   fst (snd (runForDate luxonSaoPaulo (failAt OpUpdateLeito) ward ''2024-01-15'')) = Inr ()"
proof -
  have a: "fst (snd (runSessionExpiryForDate luxonSaoPaulo (failAt OpUpdateLeito) ward ''2024-01-15'')) =
     Inl (DbError ''connection lost'')" by code_simp
  note t = entry_points_differ_only_in_error_propagation
             [of luxonSaoPaulo "failAt OpUpdateLeito" ward "''2024-01-15''"]
  from t a show ?thesis by simp
qed

text \<open>
  Claim C9. The closure returned by \<open>scheduleSessionExpiry\<close> clears the first armed
  timer and no other. Called before the first fire, it leaves no timer armed: from then
  on nothing but further calls of the closure can happen, no rollover runs and the
  tables stay as they were. Without it the first timer can fire. Once the first timer
  has fired, calls of the closure change nothing: a run with such calls ends in the same
  state as the run without them, the closure maps every state reached to itself, the
  timers armed later are all different from the first one, and a timer stays armed or
  a callback is about to arm one, so the loop goes on.
\<close>
theorem cancel_clears_only_the_first_timer:
  "(exec lx cs (cancel (scheduleSessionExpiry lx ds t0)) = Some s' \<longrightarrow>
      list_all isCancel cs \<and> armed s' = [] \<and> awaiting s' = 0 \<and> ran s' = [] \<and>
      console s' = [] \<and> db s' = ds) \<and>
   step lx (TimerFires (firstHandle (scheduleSessionExpiry lx ds t0)) t faults)
     (scheduleSessionExpiry lx ds t0) \<noteq> None \<and>
   exec lx (TimerFires h t faults # evs) (scheduleSessionExpiry lx ds t0) =
     exec lx (TimerFires h t faults # filter (\<lambda>e. \<not> isCancel e) evs) (scheduleSessionExpiry lx ds t0) \<and>
   (exec lx (TimerFires h t faults # evs) (scheduleSessionExpiry lx ds t0) = Some s'' \<longrightarrow>
      h = firstHandle (scheduleSessionExpiry lx ds t0) \<and>
      firstHandle s'' = firstHandle (scheduleSessionExpiry lx ds t0) \<and>
      firstHandle s'' \<notin> fst ` set (armed s'') \<and>
      cancel s'' = s'' \<and>
      (0 < awaiting s'' \<or> armed s'' \<noteq> []) \<and>
      (\<exists>ev. \<not> isCancel ev \<and> step lx ev s'' \<noteq> None))"
proof (intro conjI impI)
  let ?s0 = "scheduleSessionExpiry lx ds t0"
  have c0: "armed (cancel ?s0) = []" "awaiting (cancel ?s0) = 0" "ran (cancel ?s0) = []"
    "console (cancel ?s0) = []" "db (cancel ?s0) = ds"
    by (simp_all add: cancel_def clearTimeout_def start_state)
  {
    assume e: "exec lx cs (cancel ?s0) = Some s'"
    from exec_nothing_armed [OF c0(1,2) e] have s': "s' = cancel ?s0" and l: "list_all isCancel cs"
      by blast+
    show "list_all isCancel cs" by (rule l)
    show "armed s' = []" "awaiting s' = 0" "ran s' = []" "console s' = []" "db s' = ds"
      unfolding s' by (rule c0)+
  }
  show "step lx (TimerFires (firstHandle ?s0) t faults) ?s0 \<noteq> None"
    by (simp add: start_state)
  show "exec lx (TimerFires h t faults # evs) ?s0 =
          exec lx (TimerFires h t faults # filter (\<lambda>e. \<not> isCancel e) evs) ?s0"
  proof (cases "step lx (TimerFires h t faults) ?s0")
    case None
    then show ?thesis by simp
  next
    case (Some s1)
    note f = first_fire [OF Some]
    have "exec lx evs s1 = exec lx (filter (\<lambda>e. \<not> isCancel e) evs) s1"
      by (rule exec_ignores_cancel) (simp_all add: f)
    with Some show ?thesis by simp
  qed
  {
    assume e: "exec lx (TimerFires h t faults # evs) ?s0 = Some s''"
    then obtain s1 where s1: "step lx (TimerFires h t faults) ?s0 = Some s1"
      and r: "exec lx evs s1 = Some s''" by (auto split: option.splits)
    note f = first_fire [OF s1]
    have j1: "firstHandle s1 \<notin> fst ` set (armed s1)" and j2: "firstHandle s1 < nextHandle s1"
      and l: "0 < awaiting s1 \<or> armed s1 \<noteq> []" by (simp_all add: f)
    from exec_keeps_loop_alive [OF j1 j2 l r] have
      a: "firstHandle s'' = firstHandle s1" and b: "firstHandle s'' \<notin> fst ` set (armed s'')"
      and c: "0 < awaiting s'' \<or> armed s'' \<noteq> []" by blast+
    show "h = firstHandle ?s0" by (simp add: f start_state)
    show "firstHandle s'' = firstHandle ?s0" by (simp add: a f start_state)
    show "firstHandle s'' \<notin> fst ` set (armed s'')" by (rule b)
    show "cancel s'' = s''" by (rule cancel_noop [OF b])
    show "0 < awaiting s'' \<or> armed s'' \<noteq> []" by (rule c)
    show "\<exists>ev. \<not> isCancel ev \<and> step lx ev s'' \<noteq> None" by (rule loop_alive_enabled [OF c])
  }
qed

theorem cancel_clears_only_the_first_timer_witness:
  "exec luxonSaoPaulo [CancelCalled, CancelCalled]
     (cancel (scheduleSessionExpiry luxonSaoPaulo ward 1705370400000)) \<noteq> None \<and>
   ran (the (exec luxonSaoPaulo [CancelCalled, CancelCalled]
     (cancel (scheduleSessionExpiry luxonSaoPaulo ward 1705370400000)))) = [] \<and>
   exec luxonSaoPaulo
     (TimerFires 0 1705374000005 noFaults #
        [CancelCalled, CallbackResumes 1705374000050, CancelCalled,
         TimerFires 1 1705460400003 noFaults, CancelCalled])
     (scheduleSessionExpiry luxonSaoPaulo ward 1705370400000) \<noteq> None \<and>
   ran (the (exec luxonSaoPaulo
     (TimerFires 0 1705374000005 noFaults #
        [CancelCalled, CallbackResumes 1705374000050, CancelCalled,
         TimerFires 1 1705460400003 noFaults, CancelCalled])
     (scheduleSessionExpiry luxonSaoPaulo ward 1705370400000))) = [''2024-01-15'', ''2024-01-16''] \<and>
   exec luxonSaoPaulo
     (TimerFires 0 1705374000005 noFaults #
        [CancelCalled, CallbackResumes 1705374000050, CancelCalled,
         TimerFires 1 1705460400003 noFaults, CancelCalled])
     (scheduleSessionExpiry luxonSaoPaulo ward 1705370400000) =
   exec luxonSaoPaulo
     [TimerFires 0 1705374000005 noFaults, CallbackResumes 1705374000050,
      TimerFires 1 1705460400003 noFaults]
     (scheduleSessionExpiry luxonSaoPaulo ward 1705370400000)"
proof -
  let ?s0 = "scheduleSessionExpiry luxonSaoPaulo ward 1705370400000"
  let ?cs = "[CancelCalled, CancelCalled]"
  let ?evs = "[CancelCalled, CallbackResumes 1705374000050, CancelCalled,
         TimerFires 1 1705460400003 noFaults, CancelCalled]"
  have a: "exec luxonSaoPaulo ?cs (cancel ?s0) \<noteq> None" by code_simp
  then have a': "exec luxonSaoPaulo ?cs (cancel ?s0) = Some (the (exec luxonSaoPaulo ?cs (cancel ?s0)))"
    by simp
  have b: "exec luxonSaoPaulo (TimerFires 0 1705374000005 noFaults # ?evs) ?s0 \<noteq> None"
    by code_simp
  then have b': "exec luxonSaoPaulo (TimerFires 0 1705374000005 noFaults # ?evs) ?s0 =
      Some (the (exec luxonSaoPaulo (TimerFires 0 1705374000005 noFaults # ?evs) ?s0))"
    by simp
  have r: "ran (the (exec luxonSaoPaulo (TimerFires 0 1705374000005 noFaults # ?evs) ?s0)) =
             [''2024-01-15'', ''2024-01-16'']"
    by code_simp
  have f: "TimerFires 0 1705374000005 noFaults # filter (\<lambda>e. \<not> isCancel e) ?evs =
      [TimerFires 0 1705374000005 noFaults, CallbackResumes 1705374000050,
       TimerFires 1 1705460400003 noFaults]" by simp
  note t = cancel_clears_only_the_first_timer
     [of luxonSaoPaulo ?cs ward 1705370400000 "the (exec luxonSaoPaulo ?cs (cancel ?s0))"
         1705374000005 noFaults 0 ?evs
         "the (exec luxonSaoPaulo (TimerFires 0 1705374000005 noFaults # ?evs) ?s0)"]
  from t a' have 1: "ran (the (exec luxonSaoPaulo ?cs (cancel ?s0))) = []" by blast
  from t have 2: "exec luxonSaoPaulo (TimerFires 0 1705374000005 noFaults # ?evs) ?s0 =
     exec luxonSaoPaulo (TimerFires 0 1705374000005 noFaults # filter (\<lambda>e. \<not> isCancel e) ?evs) ?s0"
    by blast
  from a 1 b r 2 [unfolded f] show ?thesis by blast
qed

text \<open>
  Claim C10. An assessment of the date that has a bed gets its snapshot in a completed
  rollover whatever else it lacks, and the run does not fail for it: with no failing
  data-store operation the run completes. In the snapshot the unit id and hospital id
  are null when the unit is missing, the hospital id is null when the unit has no
  hospital, author id and author name are null when the author is missing, and the
  score fields and the bed's number and status are copied as they are, null when
  missing.
\<close>
theorem snapshot_with_missing_relations:
  "a \<in> set (selectAvaliacoes ds d) \<Longrightarrow> leito a = Some l \<Longrightarrow>
   (fst (snd (runSessionExpiryForDate lx faults ds d)) = Inr () \<longrightarrow>
      manual_h lx d a l \<in>
        set (drop (length (historicos ds)) (historicos (snd (snd (runSessionExpiryForDate lx faults ds d)))))) \<and>
   (fst (runForDate lx faults ds d) = [] \<longrightarrow>
      sched_h lx d a l \<in>
        set (drop (length (historicos ds)) (historicos (snd (snd (runForDate lx faults ds d)))))) \<and>
   fst (snd (runSessionExpiryForDate lx noFaults ds d)) = Inr () \<and>
   fst (runForDate lx noFaults ds d) = [] \<and>
   sched_h lx d a l = manual_h lx d a l \<and>
   (unidade a = None \<longrightarrow>
      h_unidadeId (manual_h lx d a l) = None \<and> h_hospitalId (manual_h lx d a l) = None) \<and>
   (\<forall>u. unidade a = Some u \<and> hospital u = None \<longrightarrow>
      h_unidadeId (manual_h lx d a l) = Some (rel_id u) \<and> h_hospitalId (manual_h lx d a l) = None) \<and>
   (autor a = None \<longrightarrow>
      h_autorId (manual_h lx d a l) = None \<and> h_autorNome (manual_h lx d a l) = None) \<and>
   h_scp (manual_h lx d a l) = scp (row a) \<and>
   h_totalPontos (manual_h lx d a l) = totalPontos (row a) \<and>
   h_classificacao (manual_h lx d a l) = classificacao (row a) \<and>
   h_itens (manual_h lx d a l) = itens (row a) \<and>
   h_leitoNumero (manual_h lx d a l) = numero l \<and>
   h_leitoStatus (manual_h lx d a l) = status l"
proof -
  assume a: "a \<in> set (selectAvaliacoes ds d)" and l: "leito a = Some l"
  from a l have m: "manual_h lx d a l \<in> set (snapshotsOf lx d (selectAvaliacoes ds d))"
    by force
  have 1: "fst (snd (runSessionExpiryForDate lx faults ds d)) = Inr () \<longrightarrow>
      manual_h lx d a l \<in>
        set (drop (length (historicos ds)) (historicos (snd (snd (runSessionExpiryForDate lx faults ds d)))))"
  proof
    assume c: "fst (snd (runSessionExpiryForDate lx faults ds d)) = Inr ()"
    from m show "manual_h lx d a l \<in>
        set (drop (length (historicos ds)) (historicos (snd (snd (runSessionExpiryForDate lx faults ds d)))))"
      by (simp add: manual_run_completed [OF c])
  qed
  have 2: "fst (runForDate lx faults ds d) = [] \<longrightarrow>
      sched_h lx d a l \<in>
        set (drop (length (historicos ds)) (historicos (snd (snd (runForDate lx faults ds d)))))"
  proof
    assume c: "fst (runForDate lx faults ds d) = []"
    from m show "sched_h lx d a l \<in>
        set (drop (length (historicos ds)) (historicos (snd (snd (runForDate lx faults ds d)))))"
      by (simp add: sched_run_completed [OF c] sched_h_eq)
  qed
  obtain ds' where t: "manual_try lx noFaults ds d = (Inr (), ds')"
    using manual_try_noFaults [of lx ds d] by blast
  have 3: "fst (snd (runSessionExpiryForDate lx noFaults ds d)) = Inr ()"
    by (simp add: manual_run_eq t)
  have 4: "fst (runForDate lx noFaults ds d) = []"
    by (simp add: sched_run_eq t)
  have 5: "sched_h lx d a l = manual_h lx d a l" by (rule sched_h_eq)
  have 6: "(unidade a = None \<longrightarrow>
      h_unidadeId (manual_h lx d a l) = None \<and> h_hospitalId (manual_h lx d a l) = None) \<and>
   (\<forall>u. unidade a = Some u \<and> hospital u = None \<longrightarrow>
      h_unidadeId (manual_h lx d a l) = Some (rel_id u) \<and> h_hospitalId (manual_h lx d a l) = None) \<and>
   (autor a = None \<longrightarrow>
      h_autorId (manual_h lx d a l) = None \<and> h_autorNome (manual_h lx d a l) = None)"
    by (simp add: manual_h_def Let_def)
  have 7: "h_scp (manual_h lx d a l) = scp (row a) \<and>
   h_totalPontos (manual_h lx d a l) = totalPontos (row a) \<and>
   h_classificacao (manual_h lx d a l) = classificacao (row a) \<and>
   h_itens (manual_h lx d a l) = itens (row a) \<and>
   h_leitoNumero (manual_h lx d a l) = numero l \<and>
   h_leitoStatus (manual_h lx d a l) = status l"
    by (simp add: manual_h_def Let_def)
  from 1 2 3 4 5 6 7 show ?thesis by blast
qed

theorem snapshot_with_missing_relations_witness:
  "hd (selectAvaliacoes bareWard ''2024-01-15'') \<in> set (selectAvaliacoes bareWard ''2024-01-15'') \<and>
   leito (hd (selectAvaliacoes bareWard ''2024-01-15'')) =
     Some \<lparr>leito_id = ''B9'', numero = None, status = Some VAGO\<rparr> \<and>
   unidade (hd (selectAvaliacoes bareWard ''2024-01-15'')) = None \<and>
   autor (hd (selectAvaliacoes bareWard ''2024-01-15'')) = None \<and>
   scp (row (hd (selectAvaliacoes bareWard ''2024-01-15''))) = None \<and>
   fst (snd (runSessionExpiryForDate luxonSaoPaulo noFaults bareWard ''2024-01-15'')) = Inr () \<and>
   manual_h luxonSaoPaulo ''2024-01-15'' (hd (selectAvaliacoes bareWard ''2024-01-15''))
       \<lparr>leito_id = ''B9'', numero = None, status = Some VAGO\<rparr> \<in>
     set (drop (length (historicos bareWard))
            (historicos (snd (snd (runSessionExpiryForDate luxonSaoPaulo noFaults bareWard ''2024-01-15''))))) \<and>
   h_unidadeId (manual_h luxonSaoPaulo ''2024-01-15'' (hd (selectAvaliacoes bareWard ''2024-01-15''))
       \<lparr>leito_id = ''B9'', numero = None, status = Some VAGO\<rparr>) = None \<and>
   h_hospitalId (manual_h luxonSaoPaulo ''2024-01-15'' (hd (selectAvaliacoes bareWard ''2024-01-15''))
       \<lparr>leito_id = ''B9'', numero = None, status = Some VAGO\<rparr>) = None \<and>
   h_autorId (manual_h luxonSaoPaulo ''2024-01-15'' (hd (selectAvaliacoes bareWard ''2024-01-15''))
       \<lparr>leito_id = ''B9'', numero = None, status = Some VAGO\<rparr>) = None \<and>
   h_autorNome (manual_h luxonSaoPaulo ''2024-01-15'' (hd (selectAvaliacoes bareWard ''2024-01-15''))
       \<lparr>leito_id = ''B9'', numero = None, status = Some VAGO\<rparr>) = None \<and>
   h_scp (manual_h luxonSaoPaulo ''2024-01-15'' (hd (selectAvaliacoes bareWard ''2024-01-15''))
       \<lparr>leito_id = ''B9'', numero = None, status = Some VAGO\<rparr>) = None"
proof -
  let ?a = "hd (selectAvaliacoes bareWard ''2024-01-15'')"
  let ?l = "\<lparr>leito_id = ''B9'', numero = None, status = Some VAGO\<rparr>"
  have sel: "selectAvaliacoes bareWard ''2024-01-15'' \<noteq> []" by code_simp
  then have p1: "?a \<in> set (selectAvaliacoes bareWard ''2024-01-15'')" by simp
  have p2: "leito ?a = Some ?l" by code_simp
  have u: "unidade ?a = None" by code_simp
  have au: "autor ?a = None" by code_simp
  have sc: "scp (row ?a) = None" by code_simp
  note t = snapshot_with_missing_relations
     [OF p1 p2, of luxonSaoPaulo noFaults]
  from t have c: "fst (snd (runSessionExpiryForDate luxonSaoPaulo noFaults bareWard ''2024-01-15'')) = Inr ()"
    by blast
  from t c have m: "manual_h luxonSaoPaulo ''2024-01-15'' ?a ?l \<in>
     set (drop (length (historicos bareWard))
            (historicos (snd (snd (runSessionExpiryForDate luxonSaoPaulo noFaults bareWard ''2024-01-15'')))))"
    by blast
  from t u have x: "h_unidadeId (manual_h luxonSaoPaulo ''2024-01-15'' ?a ?l) = None"
    "h_hospitalId (manual_h luxonSaoPaulo ''2024-01-15'' ?a ?l) = None" by blast+
  from t au have y: "h_autorId (manual_h luxonSaoPaulo ''2024-01-15'' ?a ?l) = None"
    "h_autorNome (manual_h luxonSaoPaulo ''2024-01-15'' ?a ?l) = None" by blast+
  from t have "h_scp (manual_h luxonSaoPaulo ''2024-01-15'' ?a ?l) = scp (row ?a)" by blast
  with sc have z: "h_scp (manual_h luxonSaoPaulo ''2024-01-15'' ?a ?l) = None" by simp
  from p1 p2 u au sc c m x y z show ?thesis by blast
qed


end
